theory Spec2Isabelle
  imports Main "HOL-Library.Char_ord" "HOL-Library.List_Lexorder" "HOL-Library.Product_Lexorder"
begin

section \<open>Values, errors and files\<close>

text \<open>
  The module \<^verbatim>\<open>utils.py\<close> holds four loaders built on the pandas library. Its own
  code is embedded function by function; the pandas calls it makes are library models,
  each marked as such. A file is the string of its characters, one per byte; a path is
  looked up in a file system, a partial map from paths to file contents. A line of a
  file ends at a line feed, at a carriage return, or at a carriage return followed by a
  line feed.
  An exception is a value of \<open>error\<close>, returned as \<open>Inl\<close>.
\<close>

abbreviation TAB :: char where "TAB \<equiv> CHR 0x09"
abbreviation NL :: char where "NL \<equiv> CHR 0x0A"
abbreviation CR :: char where "CR \<equiv> CHR 0x0D"
abbreviation QUOTE :: char where "QUOTE \<equiv> CHR 0x22"

datatype error =
    FileNotFoundError string
  | ValueError string
  | EmptyDataError
  | ParserError
  | KeyError
  | IndexError
  | AttributeError
  | TypeError
  | Unmodelled

text \<open>
  A Python value held in a table cell or used as a row or column label: an integer, a
  float other than NaN (its representation \<open>'n\<close> is left abstract), a \<^verbatim>\<open>str\<close>, a list of
  \<^verbatim>\<open>str\<close>, or NaN (a missing value).
\<close>

datatype 'n scalar = IntV int | FltV 'n | StrV string | StrListV "string list" | NaN

type_synonym filesystem = "string \<Rightarrow> string option"

text \<open>Python's \<^verbatim>\<open>s.split(sep)\<close> for a one-character separator.\<close>

fun str_split :: "char \<Rightarrow> string \<Rightarrow> string list" where
  "str_split d [] = [[]]"
| "str_split d (c # cs) =
     (if c = d then [] # str_split d cs
      else (case str_split d cs of
              [] \<Rightarrow> [[c]]
            | f # fs \<Rightarrow> (c # f) # fs))"

text \<open>
  Python opens a text file with universal newlines: each of the three line ends is
  handed to the program as one line feed.
\<close>

fun universal_newlines :: "string \<Rightarrow> string" where
  "universal_newlines [] = []"
| "universal_newlines [c] = [if c = CR then NL else c]"
| "universal_newlines (c # d # ds) =
     (if c = CR \<and> d = NL then NL # universal_newlines ds
      else if c = CR then NL # universal_newlines (d # ds)
      else c # universal_newlines (d # ds))"

text \<open>
  The characters of the first line of what is left of a file, with the line end as it
  is in the file; the empty string at the end of the file.
\<close>

fun raw_line :: "string \<Rightarrow> string" where
  "raw_line [] = []"
| "raw_line [c] = [c]"
| "raw_line (c # d # ds) =
     (if c = NL then [c]
      else if c = CR then (if d = NL then [c, d] else [c])
      else c # raw_line (d # ds))"

text \<open>
  An open text file: its content and the read position, an offset into the content.
  \<^verbatim>\<open>file.readline()\<close> returns the next line with its end translated and moves the
  position past the line as it is in the file; \<^verbatim>\<open>file.tell()\<close> and \<^verbatim>\<open>file.seek(pos)\<close> read and
  set the position; a reader given the file object receives what is left, translated.
\<close>

record textfile =
  content :: string
  pos :: nat

definition file_readline :: "textfile \<Rightarrow> string \<times> textfile" where
  "file_readline f =
     (let raw = raw_line (drop (pos f) (content f))
      in (universal_newlines raw, f\<lparr>pos := pos f + length raw\<rparr>))"

definition tell :: "textfile \<Rightarrow> nat" where
  "tell f = pos f"

definition seek :: "textfile \<Rightarrow> nat \<Rightarrow> textfile" where
  "seek f p = f\<lparr>pos := p\<rparr>"

definition remaining :: "textfile \<Rightarrow> string" where
  "remaining f = universal_newlines (drop (pos f) (content f))"


section \<open>Library model: tables and the delimited-text reader\<close>

text \<open>
  A pandas DataFrame: row labels (the index) with the index's name, column labels, and
  the rows of cells. The default index of a table of \<open>m\<close> rows is \<open>0, ..., m - 1\<close>.
\<close>

record 'n dataframe =
  index :: "'n scalar list"
  index_name :: "'n scalar option"
  columns :: "'n scalar list"
  rows :: "'n scalar list list"

definition range_index :: "nat \<Rightarrow> 'n scalar list" where
  "range_index m = map (\<lambda>i. IntV (int i)) [0..<m]"

text \<open>The keyword arguments of \<^verbatim>\<open>pandas.read_csv\<close> that the module passes.\<close>

record read_csv_args =
  header :: "nat option"
  sep :: char
  index_col :: "nat option"
  nrows :: "int option"
  names :: "string list option"
  usecols :: "string list option"

text \<open>
  Library model of \<^verbatim>\<open>pandas.read_csv\<close> with \<^verbatim>\<open>header=None\<close>, after the documented behaviour
  of its default parser:
  \<^item> a record is a line of the text; lines made only of blanks other than the separator
    are skipped;
  \<^item> the first record fixes the number of columns, or \<^verbatim>\<open>names\<close> does when it is given;
    shorter records are filled with NaN, a longer one is a parser error;
  \<^item> \<^verbatim>\<open>nrows\<close> keeps only the first records; a text with no record and no \<^verbatim>\<open>names\<close> is an
    empty-data error;
  \<^item> a field that is one of the default missing-value markers becomes NaN;
  \<^item> \<^verbatim>\<open>index_col\<close> moves one column into the index, which takes that column's label as
    its name.

  The text handed to the reader has line feeds as its only line ends. A cell is
  represented by the text of its field: where pandas converts a column whose fields all
  read as numbers or truth values, the cell stands for the converted value. Quoted
  fields, a header row, a selection of columns, and a first record
  wider than \<^verbatim>\<open>names\<close> are outside the model and are reported as \<open>Unmodelled\<close>.
\<close>

definition na_values :: "string list" where
  "na_values =
     ['''', ''#N/A'', ''#N/A N/A'', ''#NA'', ''-1.#IND'', ''-1.#QNAN'', ''-NaN'', ''-nan'',
      ''1.#IND'', ''1.#QNAN'', ''<NA>'', ''N/A'', ''NA'', ''NULL'', ''NaN'', ''None'',
      ''n/a'', ''nan'', ''null'']"

definition to_cell :: "string \<Rightarrow> 'n scalar" where
  "to_cell f = (if f \<in> set na_values then NaN else StrV f)"

definition text_lines :: "string \<Rightarrow> string list" where
  "text_lines text =
     (let ls = str_split NL text in if last ls = [] then butlast ls else ls)"

definition is_blank :: "char \<Rightarrow> string \<Rightarrow> bool" where
  "is_blank d l = list_all (\<lambda>c. (c = CHR '' '' \<or> c = TAB) \<and> c \<noteq> d) l"

definition pad_row :: "nat \<Rightarrow> 'n scalar list \<Rightarrow> 'n scalar list" where
  "pad_row w r = r @ replicate (w - length r) NaN"

text \<open>
  The cell of a row at a column position. Tables are rectangular, so the position is
  within the row for every table the reader builds; NaN stands for a cell that is not
  there.
\<close>

definition nth_cell :: "'n scalar list \<Rightarrow> nat \<Rightarrow> 'n scalar" where
  "nth_cell r i = (if i < length r then r ! i else NaN)"

definition drop_nth :: "nat \<Rightarrow> 'a list \<Rightarrow> 'a list" where
  "drop_nth i xs = take i xs @ drop (Suc i) xs"

definition build_frame ::
  "'n scalar list \<Rightarrow> nat option \<Rightarrow> string list list \<Rightarrow> error + 'n dataframe" where
  "build_frame cols ic cells =
     (if list_ex (\<lambda>r. length cols < length r) cells then Inl ParserError
      else
        (let body = map (\<lambda>r. pad_row (length cols) (map to_cell r)) cells
         in case ic of
              None \<Rightarrow>
                Inr \<lparr>index = range_index (length body), index_name = None,
                     columns = cols, rows = body\<rparr>
            | Some i \<Rightarrow>
                if i < length cols
                then Inr \<lparr>index = map (\<lambda>r. nth_cell r i) body, index_name = Some (cols ! i),
                          columns = drop_nth i cols, rows = map (drop_nth i) body\<rparr>
                else Inl IndexError))"

definition read_csv :: "string \<Rightarrow> read_csv_args \<Rightarrow> error + 'n dataframe" where
  "read_csv text kw =
     (if QUOTE \<in> set text \<or> header kw \<noteq> None \<or> usecols kw \<noteq> None
      then Inl Unmodelled
      else if (case nrows kw of None \<Rightarrow> False | Some n \<Rightarrow> n < 0)
      then Inl (ValueError ''nrows must be an integer >=0'')
      else
        (let records = filter (\<lambda>l. \<not> is_blank (sep kw) l) (text_lines text);
             wanted = (case nrows kw of None \<Rightarrow> records | Some n \<Rightarrow> take (nat n) records);
             cells = map (str_split (sep kw)) wanted;
             width = (case map (str_split (sep kw)) records of [] \<Rightarrow> 0 | r # _ \<Rightarrow> length r)
         in case names kw of
              None \<Rightarrow>
                if records = [] then Inl EmptyDataError
                else build_frame (range_index width) (index_col kw) cells
            | Some ns \<Rightarrow>
                if length ns < width then Inl Unmodelled
                else build_frame (map StrV ns) (index_col kw) cells))"

text \<open>
  \<^verbatim>\<open>pandas.read_csv\<close> given a path: the file is read from its start; the parser ends a
  record at each of the three line ends.
\<close>

definition read_csv_path ::
  "filesystem \<Rightarrow> string \<Rightarrow> read_csv_args \<Rightarrow> error + 'n dataframe" where
  "read_csv_path fs path kw =
     (case fs path of
        None \<Rightarrow> Inl (FileNotFoundError path)
      | Some text \<Rightarrow> read_csv (universal_newlines text) kw)"

text \<open>
  Library model of \<^verbatim>\<open>pandas.concat([a, b], axis=1)\<close> for two tables that both carry the
  default index: the result has the longer of the two indexes, the columns of \<open>a\<close>
  followed by those of \<open>b\<close>, and NaN where a table has no such row. Other indexes are
  outside the model.
\<close>

definition row_or_nan :: "'n dataframe \<Rightarrow> nat \<Rightarrow> 'n scalar list" where
  "row_or_nan df i =
     (if i < length (rows df) then rows df ! i
      else replicate (length (columns df)) NaN)"

definition concat_axis1 :: "'n dataframe \<Rightarrow> 'n dataframe \<Rightarrow> error + 'n dataframe" where
  "concat_axis1 a b =
     (if index a = range_index (length (rows a)) \<and> index b = range_index (length (rows b))
      then
        (let m = max (length (rows a)) (length (rows b))
         in Inr \<lparr>index = range_index m, index_name = None,
                 columns = columns a @ columns b,
                 rows = map (\<lambda>i. row_or_nan a i @ row_or_nan b i) [0..<m]\<rparr>)
      else Inl Unmodelled)"

text \<open>
  Library model of \<^verbatim>\<open>df.set_index(label)\<close>: the column with that label becomes the index,
  named after it; a label that is no column is a key error. A label carried by several
  columns is outside the model.
\<close>

fun find_column :: "'a \<Rightarrow> 'a list \<Rightarrow> nat option" where
  "find_column c [] = None"
| "find_column c (x # xs) =
     (if x = c then Some 0 else map_option Suc (find_column c xs))"

definition set_index :: "'n dataframe \<Rightarrow> 'n scalar \<Rightarrow> error + 'n dataframe" where
  "set_index df label =
     (case find_column label (columns df) of
        None \<Rightarrow> Inl KeyError
      | Some i \<Rightarrow>
          if 1 < count_list (columns df) label then Inl Unmodelled
          else
            Inr \<lparr>index = map (\<lambda>r. nth_cell r i) (rows df), index_name = Some label,
                 columns = drop_nth i (columns df), rows = map (drop_nth i) (rows df)\<rparr>)"

text \<open>
  \<^verbatim>\<open>df.index.rename(name, inplace=True)\<close>, and the assignment \<^verbatim>\<open>df.columns = labels\<close>, which
  raises a value error unless there are as many labels as columns.
\<close>

definition index_rename :: "'n dataframe \<Rightarrow> 'n scalar \<Rightarrow> 'n dataframe" where
  "index_rename df name = df\<lparr>index_name := Some name\<rparr>"

definition set_columns :: "'n dataframe \<Rightarrow> 'n scalar list \<Rightarrow> error + 'n dataframe" where
  "set_columns df labels =
     (if length labels = length (columns df) then Inr (df\<lparr>columns := labels\<rparr>)
      else Inl (ValueError ''Length mismatch''))"


section \<open>The weight matrix loader\<close>

text \<open>
  The loop of \<^verbatim>\<open>_weight_matrix_file_skip_rows\<close>: while the current line splits on tab into
  fewer than \<^verbatim>\<open>n_features\<close> fields, record the position and read the next line. The loop
  has no test for the end of the file, so it is a partial function: \<open>None\<close> is a run that
  never leaves the loop.
\<close>

partial_function (option) skip_loop ::
  "int \<Rightarrow> textfile \<Rightarrow> nat \<Rightarrow> string list \<Rightarrow> (nat \<times> textfile) option" where
  "skip_loop n_features file p data =
     (if int (length data) < n_features
      then (let p' = tell file;
                (current_line, file') = file_readline file;
                data' = str_split TAB current_line
            in skip_loop n_features file' p' data')
      else Some (p, file))"

declare skip_loop.simps [code]

text \<open>
  \<^verbatim>\<open>_weight_matrix_file_skip_rows(path_to_file, n_features, kwargs)\<close>: the empty-file test,
  the first \<^verbatim>\<open>readline\<close>, the loop, \<^verbatim>\<open>file.seek(pos)\<close> and the parse of what is left.
\<close>

definition weight_matrix_file_skip_rows ::
  "filesystem \<Rightarrow> string \<Rightarrow> int \<Rightarrow> read_csv_args \<Rightarrow> (error + 'n dataframe) option" where
  "weight_matrix_file_skip_rows fs path_to_file n_features kwargs =
     (case fs path_to_file of
        None \<Rightarrow> Some (Inl (FileNotFoundError path_to_file))
      | Some text \<Rightarrow>
          if length text = 0 then Some (Inl (ValueError (path_to_file @ '' is empty.'')))
          else
            (let file = \<lparr>content = text, pos = 0\<rparr>;
                 (current_line, file) = file_readline file;
                 data = str_split TAB current_line
             in case skip_loop n_features file 0 data of
                  None \<Rightarrow> None
                | Some (p, file) \<Rightarrow> Some (read_csv (remaining (seek file p)) kwargs)))"

text \<open>
  Python truth values of the optional arguments: \<^verbatim>\<open>None\<close>, the number 0 and the empty
  string are false.
\<close>

definition truthy_int :: "int option \<Rightarrow> bool" where
  "truthy_int v = (case v of None \<Rightarrow> False | Some n \<Rightarrow> n \<noteq> 0)"

definition truthy_str :: "string option \<Rightarrow> bool" where
  "truthy_str v = (case v of None \<Rightarrow> False | Some s \<Rightarrow> s \<noteq> [])"

definition path_of :: "string option \<Rightarrow> string" where
  "path_of v = (case v of None \<Rightarrow> [] | Some s \<Rightarrow> s)"

text \<open>\<^verbatim>\<open>load_weight_matrix(path_to_file, n_features, n_genes, path_to_genes_file)\<close>.\<close>

definition load_weight_matrix ::
  "filesystem \<Rightarrow> string \<Rightarrow> int \<Rightarrow> int option \<Rightarrow> string option \<Rightarrow>
     (error + 'n dataframe) option" where
  "load_weight_matrix fs path_to_file n_features n_genes path_to_genes_file =
     (let read_csv_args =
            \<lparr>header = None, sep = TAB,
             index_col = (if \<not> truthy_str path_to_genes_file then Some 0 else None),
             nrows = None, names = None, usecols = None\<rparr>;
          read_csv_args =
            (if truthy_int n_genes then read_csv_args\<lparr>nrows := n_genes\<rparr>
             else read_csv_args)
      in case weight_matrix_file_skip_rows fs path_to_file n_features read_csv_args of
           None \<Rightarrow> None
         | Some (Inl e) \<Rightarrow> Some (Inl e)
         | Some (Inr weight_matrix) \<Rightarrow>
             if truthy_str path_to_genes_file
             then
               (case read_csv_path fs (path_of path_to_genes_file)
                       \<lparr>header = None, sep = CHR '','', index_col = None,
                        nrows = None, names = Some [''genes''], usecols = None\<rparr> of
                  Inl e \<Rightarrow> Some (Inl e)
                | Inr genes_df \<Rightarrow>
                    (case concat_axis1 weight_matrix genes_df of
                       Inl e \<Rightarrow> Some (Inl e)
                     | Inr weight_matrix \<Rightarrow> Some (set_index weight_matrix (StrV ''genes''))))
             else
               Some (set_columns (index_rename weight_matrix (StrV ''genes''))
                       (range_index (nat n_features))))"


section \<open>Library model: row selection, column maps and sorting\<close>

text \<open>
  The other three loaders call \<^verbatim>\<open>pandas.read_table\<close>, which is \<^verbatim>\<open>read_csv\<close> with the tab
  separator. They take the reader as a parameter: what they do after the read does not
  depend on how the file was parsed.
\<close>

type_synonym 'n reader = "string \<Rightarrow> read_csv_args \<Rightarrow> error + 'n dataframe"

definition is_str :: "'n scalar \<Rightarrow> bool" where
  "is_str v = (case v of StrV _ \<Rightarrow> True | _ \<Rightarrow> False)"

definition is_int :: "'n scalar \<Rightarrow> bool" where
  "is_int v = (case v of IntV _ \<Rightarrow> True | _ \<Rightarrow> False)"

definition str_of :: "'n scalar \<Rightarrow> string" where
  "str_of v = (case v of StrV s \<Rightarrow> s | _ \<Rightarrow> [])"

definition int_of :: "'n scalar \<Rightarrow> int" where
  "int_of v = (case v of IntV i \<Rightarrow> i | _ \<Rightarrow> 0)"

text \<open>Python's \<^verbatim>\<open>pat in s\<close>: the pattern occurs in the string as a substring.\<close>

fun starts_with :: "string \<Rightarrow> string \<Rightarrow> bool" where
  "starts_with [] s = True"
| "starts_with (p # ps) [] = False"
| "starts_with (p # ps) (c # cs) = (p = c \<and> starts_with ps cs)"

fun str_contains :: "string \<Rightarrow> string \<Rightarrow> bool" where
  "str_contains pat [] = (pat = [])"
| "str_contains pat (c # cs) = (starts_with pat (c # cs) \<or> str_contains pat cs)"

text \<open>
  Library model of \<^verbatim>\<open>df.index.str.contains(pat, regex=False)\<close> for an index of \<^verbatim>\<open>str\<close>
  labels: one truth value per row. An index with a label that is not a \<^verbatim>\<open>str\<close>, and
  an index without labels, are outside the model.
\<close>

definition index_str_contains :: "'n dataframe \<Rightarrow> string \<Rightarrow> error + bool list" where
  "index_str_contains df pat =
     (if index df = [] \<or> \<not> list_all is_str (index df) then Inl Unmodelled
      else Inr (map (\<lambda>l. str_contains pat (str_of l)) (index df)))"

text \<open>
  Unary minus on a boolean array: numpy raises a type error (since version 1.13; before
  that it was element-wise negation).
\<close>

definition neg_mask :: "bool list \<Rightarrow> error + bool list" where
  "neg_mask flags = Inl TypeError"

text \<open>Library model of \<^verbatim>\<open>df[mask]\<close>: the rows whose mask entry is true, in order.\<close>

definition select_rows :: "'n dataframe \<Rightarrow> bool list \<Rightarrow> 'n dataframe" where
  "select_rows df flags =
     df\<lparr>index := map fst (filter snd (zip (index df) flags)),
        rows := map fst (filter snd (zip (rows df) flags))\<rparr>"

text \<open>
  Library model of \<^verbatim>\<open>df.sort_index()\<close>: rows in ascending order of their labels, for an
  index of \<^verbatim>\<open>str\<close> labels (compared as Python compares strings, character by character)
  or of integers. The model keeps rows with equal labels in their order, which pandas
  does not promise; other indexes are outside the model.
\<close>

definition reorder ::
  "('n scalar \<times> 'n scalar list) list \<Rightarrow> 'n dataframe \<Rightarrow> 'n dataframe" where
  "reorder labelled df = df\<lparr>index := map fst labelled, rows := map snd labelled\<rparr>"

definition sort_index :: "'n dataframe \<Rightarrow> error + 'n dataframe" where
  "sort_index df =
     (if list_all is_str (index df)
      then Inr (reorder (sort_key (\<lambda>lr. str_of (fst lr)) (zip (index df) (rows df))) df)
      else if list_all is_int (index df)
      then Inr (reorder (sort_key (\<lambda>lr. int_of (fst lr)) (zip (index df) (rows df))) df)
      else Inl Unmodelled)"

text \<open>
  Library model of \<^verbatim>\<open>df[label] = df[label].map(f)\<close> and of \<^verbatim>\<open>.apply(f)\<close> on a column: \<open>f\<close>
  is applied to every cell of the column, in row order; the first exception ends the
  call. A missing column is a key error.
\<close>

fun map_cells :: "('a \<Rightarrow> error + 'b) \<Rightarrow> 'a list \<Rightarrow> error + 'b list" where
  "map_cells f [] = Inr []"
| "map_cells f (x # xs) =
     (case f x of
        Inl e \<Rightarrow> Inl e
      | Inr y \<Rightarrow> (case map_cells f xs of Inl e \<Rightarrow> Inl e | Inr ys \<Rightarrow> Inr (y # ys)))"

definition map_column ::
  "'n dataframe \<Rightarrow> 'n scalar \<Rightarrow> ('n scalar \<Rightarrow> error + 'n scalar) \<Rightarrow> error + 'n dataframe" where
  "map_column df label f =
     (case find_column label (columns df) of
        None \<Rightarrow> Inl KeyError
      | Some i \<Rightarrow>
          (case map_cells (\<lambda>r. f (nth_cell r i)) (rows df) of
             Inl e \<Rightarrow> Inl e
           | Inr vs \<Rightarrow> Inr (df\<lparr>rows := map (\<lambda>(r, v). r[i := v]) (zip (rows df) vs)\<rparr>)))"

text \<open>
  Library model of \<^verbatim>\<open>df.sort_values(by=[a, b])\<close>: with two or more keys pandas sorts
  lexicographically and keeps the order of rows that agree on all keys. The model covers
  key columns that hold only integers or only \<^verbatim>\<open>str\<close> values, without missing values;
  a key that is no column is a key error.
\<close>

definition order_key :: "'n scalar \<Rightarrow> int \<times> string" where
  "order_key v = (int_of v, str_of v)"

definition homogeneous :: "'n scalar list \<Rightarrow> bool" where
  "homogeneous vs = (list_all is_int vs \<or> list_all is_str vs)"

definition column_values :: "'n dataframe \<Rightarrow> nat \<Rightarrow> 'n scalar list" where
  "column_values df i = map (\<lambda>r. nth_cell r i) (rows df)"

definition sort_values ::
  "'n dataframe \<Rightarrow> 'n scalar \<Rightarrow> 'n scalar \<Rightarrow> error + 'n dataframe" where
  "sort_values df a b =
     (case (find_column a (columns df), find_column b (columns df)) of
        (Some i, Some j) \<Rightarrow>
          if homogeneous (column_values df i) \<and> homogeneous (column_values df j)
          then Inr (reorder
                      (sort_key (\<lambda>lr. (order_key (nth_cell (snd lr) i),
                                        order_key (nth_cell (snd lr) j)))
                         (zip (index df) (rows df))) df)
          else Inl Unmodelled
      | _ \<Rightarrow> Inl KeyError)"


section \<open>The expression dataset loader\<close>

text \<open>\<^verbatim>\<open>load_expression_dataset(path_to_file)\<close>.\<close>

definition load_expression_dataset :: "'n reader \<Rightarrow> string \<Rightarrow> error + 'n dataframe" where
  "load_expression_dataset read_table path_to_file =
     (case read_table path_to_file
             \<lparr>header = Some 0, sep = TAB, index_col = None, nrows = None,
              names = None, usecols = None\<rparr> of
        Inl e \<Rightarrow> Inl e
      | Inr expression_dataset \<Rightarrow>
          (case columns expression_dataset of
             [] \<Rightarrow> Inl IndexError
           | index_on # _ \<Rightarrow>
               (case set_index expression_dataset index_on of
                  Inl e \<Rightarrow> Inl e
                | Inr expression_dataset \<Rightarrow>
                    (case index_str_contains expression_dataset ''?'' of
                       Inl e \<Rightarrow> Inl e
                     | Inr flags \<Rightarrow>
                         (case neg_mask flags of
                            Inl e \<Rightarrow> Inl e
                          | Inr keep \<Rightarrow> sort_index (select_rows expression_dataset keep))))))"


section \<open>The pathway definitions loader\<close>

text \<open>
  The function given to \<^verbatim>\<open>.map\<close>: \<^verbatim>\<open>x.split(";")\<close>, an attribute error on a cell that is
  not a \<^verbatim>\<open>str\<close>.
\<close>

definition split_genes :: "'n scalar \<Rightarrow> error + 'n scalar" where
  "split_genes x =
     (case x of
        StrV s \<Rightarrow> Inr (StrListV (str_split (CHR '';'') s))
      | _ \<Rightarrow> Inl AttributeError)"

text \<open>
  The loop over \<^verbatim>\<open>iterrows()\<close>: each row's label, shortened when a shortening function
  was given, becomes a key of the dictionary, bound to the set of the row's genes; a
  later binding of a key replaces the earlier one. The shortening function maps
  \<^verbatim>\<open>str\<close> to \<^verbatim>\<open>str\<close>; a pathway name that is not a \<^verbatim>\<open>str\<close> is outside the model.
\<close>

fun pathway_loop ::
  "(string \<Rightarrow> string) option \<Rightarrow> nat option \<Rightarrow> ('n scalar \<times> 'n scalar list) list \<Rightarrow>
     (string \<rightharpoonup> string set) \<Rightarrow> error + (string \<rightharpoonup> string set)" where
  "pathway_loop shorten_pathway_names genes_col [] pathway_definitions_map =
     Inr pathway_definitions_map"
| "pathway_loop shorten_pathway_names genes_col ((label, row) # rest) pathway_definitions_map =
     (case label of
        StrV name \<Rightarrow>
          (let key = (case shorten_pathway_names of
                        Some f \<Rightarrow> f name
                      | None \<Rightarrow> name)
           in case genes_col of
                None \<Rightarrow> Inl KeyError
              | Some i \<Rightarrow>
                  (case nth_cell row i of
                     StrListV genes \<Rightarrow>
                       pathway_loop shorten_pathway_names genes_col rest
                         (pathway_definitions_map(key \<mapsto> set genes))
                   | _ \<Rightarrow> Inl Unmodelled))
      | _ \<Rightarrow> Inl Unmodelled)"

text \<open>\<^verbatim>\<open>load_pathway_definitions(path_to_file, shorten_pathway_names)\<close>.\<close>

definition load_pathway_definitions ::
  "'n reader \<Rightarrow> string \<Rightarrow> (string \<Rightarrow> string) option \<Rightarrow> error + (string \<rightharpoonup> string set)" where
  "load_pathway_definitions read_table path_to_file shorten_pathway_names =
     (case read_table path_to_file
             \<lparr>header = None, sep = TAB, index_col = None, nrows = None,
              names = Some [''pw'', ''size'', ''genes''], usecols = None\<rparr> of
        Inl e \<Rightarrow> Inl e
      | Inr pathway_definitions \<Rightarrow>
          (case map_column pathway_definitions (StrV ''genes'') split_genes of
             Inl e \<Rightarrow> Inl e
           | Inr pathway_definitions \<Rightarrow>
               (case set_index pathway_definitions (StrV ''pw'') of
                  Inl e \<Rightarrow> Inl e
                | Inr pathway_definitions \<Rightarrow>
                    pathway_loop shorten_pathway_names
                      (find_column (StrV ''genes'') (columns pathway_definitions))
                      (zip (index pathway_definitions) (rows pathway_definitions))
                      Map.empty)))"


section \<open>The significant pathways loader\<close>

text \<open>
  The function given to \<^verbatim>\<open>.apply\<close>: the shortening function on a pathway name; a name
  that is not a \<^verbatim>\<open>str\<close> is outside the model.
\<close>

definition apply_shorten :: "(string \<Rightarrow> string) \<Rightarrow> 'n scalar \<Rightarrow> error + 'n scalar" where
  "apply_shorten f x = (case x of StrV s \<Rightarrow> Inr (StrV (f s)) | _ \<Rightarrow> Inl Unmodelled)"

text \<open>\<^verbatim>\<open>load_significant_pathways_file(path_to_file, shorten_pathway_names)\<close>.\<close>

definition load_significant_pathways_file ::
  "'n reader \<Rightarrow> string \<Rightarrow> (string \<Rightarrow> string) option \<Rightarrow> error + 'n dataframe" where
  "load_significant_pathways_file read_table path_to_file shorten_pathway_names =
     (case read_table path_to_file
             \<lparr>header = Some 0, sep = TAB, index_col = None, nrows = None, names = None,
              usecols = Some [''feature'', ''side'', ''pathway'']\<rparr> of
        Inl e \<Rightarrow> Inl e
      | Inr significant_pathways \<Rightarrow>
          (case (case shorten_pathway_names of
                   Some f \<Rightarrow> map_column significant_pathways (StrV ''pathway'') (apply_shorten f)
                 | None \<Rightarrow> Inr significant_pathways) of
             Inl e \<Rightarrow> Inl e
           | Inr significant_pathways \<Rightarrow>
               sort_values significant_pathways (StrV ''feature'') (StrV ''side'')))"


section \<open>Vocabulary of the properties\<close>

text \<open>
  The first line and all lines of a text whose line ends are line feeds, each line with
  its line feed: what \<^verbatim>\<open>readline()\<close> and \<^verbatim>\<open>readlines()\<close> give on a text already translated.
\<close>

fun readline :: "string \<Rightarrow> string" where
  "readline [] = []"
| "readline (c # cs) = (if c = NL then [c] else c # readline cs)"

fun readlines :: "string \<Rightarrow> string list" where
  "readlines [] = []"
| "readlines (c # cs) =
     (if c = NL then [c] # readlines cs
      else (case readlines cs of
              [] \<Rightarrow> [[c]]
            | l # ls \<Rightarrow> (c # l) # ls))"

text \<open>
  The lines of a file as they are in the file, each with its own line end, so that their
  lengths add up to offsets; and the lines as Python reads them, \<^verbatim>\<open>file.readlines()\<close>.
\<close>

function raw_lines :: "string \<Rightarrow> string list" where
  "raw_lines t = (if t = [] then [] else raw_line t # raw_lines (drop (length (raw_line t)) t))"
  by pat_completeness auto
termination
proof (relation "measure length")
  fix t :: string
  assume "t \<noteq> []"
  then have "raw_line t \<noteq> []"
    by (cases t rule: raw_line.cases) auto
  with \<open>t \<noteq> []\<close> show "(drop (length (raw_line t)) t, t) \<in> measure length"
    by simp
qed simp

declare raw_lines.simps [simp del]

definition file_lines :: "string \<Rightarrow> string list" where
  "file_lines t = map universal_newlines (raw_lines t)"

text \<open>
  The number of fields the loop counts on a line, and a file in which no line has as
  many as \<open>n\<close> of them.
\<close>

definition field_count :: "string \<Rightarrow> nat" where
  "field_count l = length (str_split TAB l)"

definition short_lines :: "int \<Rightarrow> string \<Rightarrow> bool" where
  "short_lines n t = list_all (\<lambda>l. int (field_count l) < n) (file_lines t)"


text \<open>
  A text made of the given lines, each ended by a line feed; the last line's line feed
  is there when \<open>eol\<close> holds. A file reads as these lines when its translation is this
  text, whichever line ends the file itself has.
\<close>

definition join_lines :: "bool \<Rightarrow> string list \<Rightarrow> string" where
  "join_lines eol ls =
     (if ls = [] then []
      else concat (map (\<lambda>l. l @ [NL]) (butlast ls)) @ last ls @ (if eol then [NL] else []))"

text \<open>
  A line of a genes file that the reader takes as one field: no line end, quote or
  comma in it, and not blank.
\<close>

definition one_field :: "string \<Rightarrow> bool" where
  "one_field s =
     (NL \<notin> set s \<and> QUOTE \<notin> set s \<and> CHR '','' \<notin> set s \<and> \<not> is_blank (CHR '','') s)"

text \<open>
  A gene identifier that pandas keeps as it is written: printable ASCII characters other
  than space, quote and comma, the first one a letter, and, whatever the case of its
  letters, not one of the words pandas reads as a missing value, a number or a truth
  value.
\<close>

definition ascii_lower :: "char \<Rightarrow> char" where
  "ascii_lower c =
     (case find_column c ''ABCDEFGHIJKLMNOPQRSTUVWXYZ'' of
        Some i \<Rightarrow> ''abcdefghijklmnopqrstuvwxyz'' ! i
      | None \<Rightarrow> c)"

definition is_letter :: "char \<Rightarrow> bool" where
  "is_letter c = (c \<in> set ''ABCDEFGHIJKLMNOPQRSTUVWXYZabcdefghijklmnopqrstuvwxyz'')"

definition plain_char :: "char \<Rightarrow> bool" where
  "plain_char c = (CHR 0x21 \<le> c \<and> c \<le> CHR 0x7E \<and> c \<noteq> QUOTE \<and> c \<noteq> CHR '','')"

definition value_words :: "string list" where
  "value_words =
     [''na'', ''n/a'', ''nan'', ''null'', ''none'', ''inf'', ''infinity'', ''true'', ''false'']"

definition gene_id :: "string \<Rightarrow> bool" where
  "gene_id s =
     ((case s of [] \<Rightarrow> False | c # _ \<Rightarrow> is_letter c) \<and> list_all plain_char s \<and>
      map ascii_lower s \<notin> set value_words \<and> s \<notin> set na_values)"

text \<open>The number of rows kept of \<open>m\<close> when \<^verbatim>\<open>n_genes\<close> caps them.\<close>

definition kept_rows :: "int option \<Rightarrow> nat \<Rightarrow> nat" where
  "kept_rows n_genes m = (case n_genes of None \<Rightarrow> m | Some k \<Rightarrow> min m (nat k))"

text \<open>
  The pathway name under which a row is stored: shortened when a shortening function is
  given.
\<close>

definition shortened :: "(string \<Rightarrow> string) option \<Rightarrow> string \<Rightarrow> string" where
  "shortened shorten_pathway_names name =
     (case shorten_pathway_names of Some f \<Rightarrow> f name | None \<Rightarrow> name)"

text \<open>
  The table the reader returns for a pathway definitions file whose rows are the given
  entries (pathway name, size, gene list), under the three column names the loader
  passes; and the row an entry becomes once its gene list is split and its name is the
  row label.
\<close>

definition pathway_row :: "string \<times> 'n scalar \<times> string \<Rightarrow> 'n scalar list" where
  "pathway_row e = (case e of (pw, sz, genes) \<Rightarrow> [StrV pw, sz, StrV genes])"

definition pathway_table :: "(string \<times> 'n scalar \<times> string) list \<Rightarrow> 'n dataframe" where
  "pathway_table entries =
     \<lparr>index = range_index (length entries), index_name = None,
      columns = [StrV ''pw'', StrV ''size'', StrV ''genes''],
      rows = map pathway_row entries\<rparr>"

definition indexed_row :: "string \<times> 'n scalar \<times> string \<Rightarrow> 'n scalar \<times> 'n scalar list" where
  "indexed_row e =
     (case e of (pw, sz, genes) \<Rightarrow> (StrV pw, [sz, StrListV (str_split (CHR '';'') genes)]))"

text \<open>
  Python's \<^verbatim>\<open><\<close> and \<^verbatim>\<open><=\<close> on two integers or two strings, and \<^verbatim>\<open>row[label]\<close>, the cell of
  a row under a column label.
\<close>

fun py_less :: "'n scalar \<Rightarrow> 'n scalar \<Rightarrow> bool" where
  "py_less (IntV a) (IntV b) = (a < b)"
| "py_less (StrV a) (StrV b) = (a < b)"
| "py_less _ _ = False"

fun py_le :: "'n scalar \<Rightarrow> 'n scalar \<Rightarrow> bool" where
  "py_le (IntV a) (IntV b) = (a \<le> b)"
| "py_le (StrV a) (StrV b) = (a \<le> b)"
| "py_le _ _ = False"

definition row_get :: "'n scalar list \<Rightarrow> 'n scalar list \<Rightarrow> 'n scalar \<Rightarrow> 'n scalar" where
  "row_get cols r label =
     (case find_column label cols of None \<Rightarrow> NaN | Some k \<Rightarrow> nth_cell r k)"

text \<open>A parsed significant pathways file, and the table the loader makes of it.\<close>

definition example_significant_table :: "nat dataframe" where
  "example_significant_table =
     \<lparr>index = [IntV 0, IntV 1, IntV 2, IntV 3], index_name = None,
      columns = [StrV ''pathway'', StrV ''feature'', StrV ''side''],
      rows = [[StrV ''KEGG_A'', IntV 10, StrV ''pos''], [StrV ''PID_A'', IntV 9, StrV ''pos''],
              [StrV ''KEGG_B'', IntV 10, StrV ''neg''], [StrV ''KEGG_C'', IntV 10, StrV ''pos'']]\<rparr>"

definition example_significant_sorted :: "nat dataframe" where
  "example_significant_sorted =
     \<lparr>index = [IntV 1, IntV 2, IntV 0, IntV 3], index_name = None,
      columns = [StrV ''pathway'', StrV ''feature'', StrV ''side''],
      rows = [[StrV ''PID_A'', IntV 9, StrV ''pos''], [StrV ''KEGG_B'', IntV 10, StrV ''neg''],
              [StrV ''KEGG_A'', IntV 10, StrV ''pos''], [StrV ''KEGG_C'', IntV 10, StrV ''pos'']]\<rparr>"

definition example_significant :: "nat reader" where
  "example_significant p kw = Inr example_significant_table"

text \<open>Readers that stand for a parsed expression file and a parsed pathway file.\<close>

definition example_expression :: "nat reader" where
  "example_expression p kw =
     Inr \<lparr>index = range_index 4, index_name = None,
          columns = [StrV ''gene'', StrV ''s1''],
          rows = [[StrV ''b'', FltV 1], [StrV ''a?'', FltV 2], [StrV ''a'', FltV 3],
                  [StrV ''B'', FltV 3]]\<rparr>"

definition example_pathways :: "nat reader" where
  "example_pathways p kw =
     Inr (pathway_table
            [(''KEGG_A'', IntV 2, ''g1;g2''), (''PID_B'', IntV 1, ''g3''),
             (''REACTOME_A'', IntV 1, ''g4'')])"

text \<open>A small file system on which the properties are exercised.\<close>

definition example_fs :: filesystem where
  "example_fs p =
     (if p = ''w.tsv''
      then Some (''junk'' @ [NL] @ ''head'' @ [TAB] @ ''a'' @ [NL] @
                 ''g1'' @ [TAB] @ ''1'' @ [TAB] @ ''2'' @ [NL] @
                 ''g2'' @ [TAB] @ ''3'' @ [TAB] @ ''4'' @ [NL])
      else if p = ''m.tsv''
      then Some (''junk'' @ [NL] @
                 ''g1'' @ [TAB] @ ''1'' @ [TAB] @ ''2'' @ [NL] @
                 ''g2'' @ [TAB] @ ''3'' @ [TAB] @ ''4'' @ [NL])
      else if p = ''x.tsv''
      then Some (''junk'' @ [NL] @ ''1'' @ [TAB] @ ''2'' @ [NL] @ ''3'' @ [TAB] @ ''4'')
      else if p = ''genes.txt'' then Some (''gA'' @ [NL] @ ''gB'' @ [NL])
      else if p = ''one.txt'' then Some ''gA''
      else if p = ''na.txt'' then Some (''gA'' @ [NL] @ ''NA'' @ [NL])
      else if p = ''dos.tsv''
      then Some (''junk'' @ [CR, NL] @ ''g1'' @ [TAB] @ ''1'' @ [TAB] @ ''2'' @ [CR, NL] @
                 ''g2'' @ [TAB] @ ''3'' @ [TAB] @ ''4'' @ [CR, NL])
      else if p = ''mac.tsv''
      then Some (''g1'' @ [TAB] @ ''1'' @ [TAB] @ ''2'' @ [CR] @
                 ''g2'' @ [TAB] @ ''3'' @ [TAB] @ ''4'')
      else if p = ''short.tsv'' then Some (''gene'' @ [NL])
      else if p = ''empty.tsv'' then Some []
      else None)"


section \<open>Lines and fields\<close>

lemma str_split_not_Nil: "str_split d s \<noteq> []"
  by (induction s) (auto split: list.splits)

lemma length_str_split: "length (str_split d s) = Suc (count_list s d)"
  by (induction s) (auto split: list.splits simp: str_split_not_Nil)

lemma readlines_unfold:
  "s \<noteq> [] \<Longrightarrow> readlines s = readline s # readlines (drop (length (readline s)) s)"
proof (induction s)
  case Nil
  then show ?case by simp
next
  case (Cons c cs)
  show ?case
  proof (cases "c = NL")
    case True
    then show ?thesis by simp
  next
    case False
    show ?thesis
    proof (cases "cs = []")
      case True
      with False show ?thesis by simp
    next
      case ne: False
      with Cons.IH have "readlines cs = readline cs # readlines (drop (length (readline cs)) cs)"
        by simp
      with False show ?thesis by simp
    qed
  qed
qed

lemma concat_readlines: "concat (readlines s) = s"
  by (induction s) (auto split: list.splits)

lemma raw_line_not_Nil: "t \<noteq> [] \<Longrightarrow> raw_line t \<noteq> []"
  by (induction t rule: raw_line.induct) auto

lemma raw_line_prefix: "raw_line t @ drop (length (raw_line t)) t = t"
  by (induction t rule: raw_line.induct) auto

lemma raw_lines_Nil [simp]: "raw_lines [] = []"
  by (simp add: raw_lines.simps)

lemma raw_lines_unfold:
  "t \<noteq> [] \<Longrightarrow> raw_lines t = raw_line t # raw_lines (drop (length (raw_line t)) t)"
  by (subst raw_lines.simps) simp

lemma concat_raw_lines: "concat (raw_lines t) = t"
proof (induction t rule: raw_lines.induct)
  case (1 t)
  show ?case
  proof (cases "t = []")
    case True
    then show ?thesis by simp
  next
    case False
    with 1 raw_lines_unfold[OF False] raw_line_prefix[of t] show ?thesis by simp
  qed
qed

lemma universal_newlines_Cons:
  "c \<noteq> CR \<Longrightarrow> universal_newlines (c # s) = c # universal_newlines s"
  by (cases s) auto

lemma universal_newlines_split:
  "universal_newlines t =
     universal_newlines (raw_line t) @ universal_newlines (drop (length (raw_line t)) t)"
  by (induction t rule: raw_line.induct) (auto simp: universal_newlines_Cons)

lemma universal_newlines_raw_line:
  "(\<exists>l. universal_newlines (raw_line t) = l @ [NL] \<and> NL \<notin> set l) \<or>
   (NL \<notin> set (universal_newlines (raw_line t)) \<and> drop (length (raw_line t)) t = [])"
proof (induction t rule: raw_line.induct)
  case 1
  then show ?case by simp
next
  case (2 c)
  then show ?case by auto
next
  case (3 c d ds)
  show ?case
  proof (cases "c = NL \<or> c = CR")
    case True
    then show ?thesis by auto
  next
    case False
    with 3 show ?thesis
      by (cases "raw_line (d # ds)") (auto simp: Cons_eq_append_conv)
  qed
qed


lemma readlines_line: "NL \<notin> set l \<Longrightarrow> readlines (l @ NL # s) = (l @ [NL]) # readlines s"
  by (induction l) auto

lemma readlines_last: "NL \<notin> set l \<Longrightarrow> l \<noteq> [] \<Longrightarrow> readlines l = [l]"
proof (induction l)
  case Nil
  then show ?case by simp
next
  case (Cons a l)
  then show ?case by (cases "l = []") auto
qed

lemma universal_newlines_Nil_iff: "universal_newlines t = [] \<longleftrightarrow> t = []"
  by (induction t rule: universal_newlines.induct) auto

lemma readlines_universal_newlines:
  "readlines (universal_newlines t) = map universal_newlines (raw_lines t)"
proof (induction t rule: raw_lines.induct)
  case (1 t)
  show ?case
  proof (cases "t = []")
    case True
    then show ?thesis by simp
  next
    case False
    let ?rest = "drop (length (raw_line t)) t"
    from 1[OF False] have IH: "readlines (universal_newlines ?rest) = map universal_newlines (raw_lines ?rest)" .
    have sp: "universal_newlines t = universal_newlines (raw_line t) @ universal_newlines ?rest"
      by (rule universal_newlines_split)
    from universal_newlines_raw_line[of t] show ?thesis
    proof
      assume "\<exists>l. universal_newlines (raw_line t) = l @ [NL] \<and> NL \<notin> set l"
      then obtain l where l: "universal_newlines (raw_line t) = l @ [NL]" "NL \<notin> set l" by blast
      with sp have "universal_newlines t = l @ NL # universal_newlines ?rest" by simp
      with readlines_line[OF l(2)] IH l(1) raw_lines_unfold[OF False] show ?thesis by simp
    next
      assume a: "NL \<notin> set (universal_newlines (raw_line t)) \<and> ?rest = []"
      from False raw_line_not_Nil have "universal_newlines (raw_line t) \<noteq> []"
        by (simp add: universal_newlines_Nil_iff)
      with a sp readlines_last raw_lines_unfold[OF False] show ?thesis by simp
    qed
  qed
qed

lemma raw_lines_drop_boundary:
  "raw_lines (drop (length (concat (take i (raw_lines s)))) s) = drop i (raw_lines s)"
proof (induction i arbitrary: s)
  case 0
  then show ?case by simp
next
  case (Suc i)
  show ?case
  proof (cases "s = []")
    case True
    then show ?thesis by simp
  next
    case False
    from raw_lines_unfold[OF False] Suc.IH[of "drop (length (raw_line s)) s"]
    show ?thesis by (simp add: add.commute)
  qed
qed

lemma universal_newlines_concat:
  "universal_newlines t = concat (map universal_newlines (raw_lines t))"
proof (induction t rule: raw_lines.induct)
  case (1 t)
  show ?case
  proof (cases "t = []")
    case True
    then show ?thesis by simp
  next
    case False
    with 1 raw_lines_unfold[OF False] universal_newlines_split[of t] show ?thesis by simp
  qed
qed

lemma universal_newlines_drop_boundary:
  "universal_newlines (drop (length (concat (take i (raw_lines t)))) t) =
     concat (drop i (readlines (universal_newlines t)))"
  by (simp add: universal_newlines_concat[of "drop (length (concat (take i (raw_lines t)))) t"]
      raw_lines_drop_boundary readlines_universal_newlines drop_map)

lemma file_lines_readlines: "file_lines t = readlines (universal_newlines t)"
  by (simp add: file_lines_def readlines_universal_newlines)

lemma file_lines_unfold:
  "t \<noteq> [] \<Longrightarrow>
     file_lines t = universal_newlines (raw_line t) # file_lines (drop (length (raw_line t)) t)"
  by (simp add: file_lines_def raw_lines_unfold)

lemma file_lines_Nil [simp]: "file_lines [] = []"
  by (simp add: file_lines_def)

lemma length_file_lines: "length (file_lines t) = length (raw_lines t)"
  by (simp add: file_lines_def)


section \<open>The scan for the first row of the matrix\<close>

text \<open>
  When line \<open>i\<close> of what lies after offset \<open>p\<close> is the first with at least \<open>n\<close> fields,
  the loop entered on the line at \<open>p\<close> returns the offset at which line \<open>i\<close> starts.
\<close>

lemma skip_loop_found:
  assumes "i < length (file_lines (drop p t))"
    and "list_all (\<lambda>l. int (field_count l) < n) (take i (file_lines (drop p t)))"
    and "n \<le> int (field_count (file_lines (drop p t) ! i))"
  shows "skip_loop n \<lparr>content = t, pos = p + length (raw_line (drop p t))\<rparr> p
           (str_split TAB (universal_newlines (raw_line (drop p t)))) =
         Some (p + length (concat (take i (raw_lines (drop p t)))),
               \<lparr>content = t,
                pos = p + length (concat (take (Suc i) (raw_lines (drop p t))))\<rparr>)"
  using assms
proof (induction i arbitrary: p)
  case 0
  then have ne: "drop p t \<noteq> []" by auto
  from 0 file_lines_unfold[OF ne] raw_lines_unfold[OF ne] show ?case
    by (subst skip_loop.simps) (simp add: field_count_def)
next
  case (Suc i)
  then have ne: "drop p t \<noteq> []" by auto
  let ?l = "raw_line (drop p t)"
  let ?p' = "p + length ?l"
  have fl: "file_lines (drop p t) = universal_newlines ?l # file_lines (drop ?p' t)"
    using file_lines_unfold[OF ne] by (simp add: add.commute)
  have rl: "raw_lines (drop p t) = ?l # raw_lines (drop ?p' t)"
    using raw_lines_unfold[OF ne] by (simp add: add.commute)
  have short: "int (length (str_split TAB (universal_newlines ?l))) < n"
    using Suc.prems(2) fl by (simp add: field_count_def)
  have 1: "i < length (file_lines (drop ?p' t))"
    using Suc.prems(1) fl by simp
  have 2: "list_all (\<lambda>l. int (field_count l) < n) (take i (file_lines (drop ?p' t)))"
    using Suc.prems(2) fl by simp
  have 3: "n \<le> int (field_count (file_lines (drop ?p' t) ! i))"
    using Suc.prems(3) fl by simp
  note IH = Suc.IH[OF 1 2 3]
  show ?case
    apply (subst skip_loop.simps)
    using short IH rl
    by (simp add: file_readline_def tell_def Let_def add.assoc)
qed

lemma skip_rows_found:
  assumes "fs path = Some t"
    and "i < length (file_lines t)"
    and "list_all (\<lambda>l. int (field_count l) < n) (take i (file_lines t))"
    and "n \<le> int (field_count (file_lines t ! i))"
  shows "weight_matrix_file_skip_rows fs path n kw =
           Some (read_csv
                   (universal_newlines (drop (length (concat (take i (raw_lines t)))) t)) kw)"
proof -
  from assms(2) have ne: "t \<noteq> []" by auto
  from skip_loop_found[of i 0 t n] assms(2-4)
  have "skip_loop n \<lparr>content = t, pos = length (raw_line t)\<rparr> 0
          (str_split TAB (universal_newlines (raw_line t))) =
        Some (length (concat (take i (raw_lines t))),
              \<lparr>content = t, pos = length (concat (take (Suc i) (raw_lines t)))\<rparr>)"
    by simp
  with assms(1) ne show ?thesis
    by (simp add: weight_matrix_file_skip_rows_def file_readline_def seek_def remaining_def
        Let_def)
qed

lemma parsed_text_is_rest:
  "universal_newlines (drop (length (concat (take i (raw_lines t)))) t) =
     concat (drop i (file_lines t))"
  by (simp add: universal_newlines_drop_boundary file_lines_readlines)

text \<open>
  When no line has \<open>n\<close> fields the loop cannot return: past the last line \<^verbatim>\<open>readline\<close>
  yields the empty string, which splits into one field, and \<open>1 < n\<close>.
\<close>

lemma short_lines_step:
  assumes "short_lines n s" and "1 < n"
  shows "int (length (str_split TAB (universal_newlines (raw_line s)))) < n"
    and "short_lines n (drop (length (raw_line s)) s)"
proof -
  show "int (length (str_split TAB (universal_newlines (raw_line s)))) < n"
  proof (cases "s = []")
    case True
    with assms(2) show ?thesis by simp
  next
    case False
    from file_lines_unfold[OF False] assms(1) show ?thesis
      by (simp add: short_lines_def field_count_def)
  qed
  show "short_lines n (drop (length (raw_line s)) s)"
  proof (cases "s = []")
    case True
    with assms(1) show ?thesis by simp
  next
    case False
    from file_lines_unfold[OF False] assms(1) show ?thesis
      by (simp add: short_lines_def)
  qed
qed

lemma skip_loop_never_returns:
  assumes "skip_loop n file p data = Some y"
  shows "\<not> (1 < n \<and> int (length data) < n \<and> short_lines n (drop (pos file) (content file)))"
proof (rule skip_loop.raw_induct
    [where P = "\<lambda>n f p data y.
        \<not> (1 < n \<and> int (length data) < n \<and> short_lines n (drop (pos f) (content f)))",
     OF _ assms])
  fix loop n f p data y
  assume IH: "\<And>a b c d y. loop a b c d = Some y \<Longrightarrow>
                \<not> (1 < a \<and> int (length d) < a \<and> short_lines a (drop (pos b) (content b)))"
    and body: "(if int (length data) < n
                then (let p' = tell f;
                          (current_line, file') = file_readline f;
                          data' = str_split TAB current_line
                      in loop n file' p' data')
                else Some (p, f)) = Some (y :: nat \<times> textfile)"
  show "\<not> (1 < n \<and> int (length data) < n \<and> short_lines n (drop (pos f) (content f)))"
  proof
    assume inv: "1 < n \<and> int (length data) < n \<and> short_lines n (drop (pos f) (content f))"
    let ?rest = "drop (pos f) (content f)"
    let ?l = "raw_line ?rest"
    let ?f' = "f\<lparr>pos := pos f + length ?l\<rparr>"
    from inv body have call: "loop n ?f' (tell f) (str_split TAB (universal_newlines ?l)) = Some y"
      by (simp add: file_readline_def Let_def)
    have rem: "drop (pos ?f') (content ?f') = drop (length ?l) ?rest"
      by (simp add: add.commute)
    from inv short_lines_step[of n ?rest]
    have "1 < n \<and> int (length (str_split TAB (universal_newlines ?l))) < n \<and>
          short_lines n (drop (pos ?f') (content ?f'))"
      by (simp only: rem)
    with IH[OF call] show False by blast
  qed
qed

lemma skip_loop_diverges:
  assumes "1 < n" and "int (length data) < n"
    and "short_lines n (drop (pos file) (content file))"
  shows "skip_loop n file p data = None"
proof (cases "skip_loop n file p data")
  case None
  then show ?thesis .
next
  case (Some y)
  from skip_loop_never_returns[OF Some] assms show ?thesis by blast
qed

lemma skip_rows_diverges:
  assumes "fs path = Some t" and "t \<noteq> []" and "short_lines n t"
  shows "weight_matrix_file_skip_rows fs path n kw = None"
proof -
  from file_lines_unfold[OF assms(2)] assms(3)
  have first: "int (length (str_split TAB (universal_newlines (raw_line t)))) < n"
    by (simp add: short_lines_def field_count_def)
  have "1 \<le> int (length (str_split TAB (universal_newlines (raw_line t))))"
    by (simp add: length_str_split)
  with first have n: "1 < n" by simp
  let ?f = "\<lparr>content = t, pos = length (raw_line t)\<rparr>"
  from short_lines_step(2)[OF assms(3) n] have "short_lines n (drop (pos ?f) (content ?f))"
    by simp
  from skip_loop_diverges[OF n first this]
  have "skip_loop n ?f 0 (str_split TAB (universal_newlines (raw_line t))) = None" .
  with assms(1,2) show ?thesis
    by (simp add: weight_matrix_file_skip_rows_def file_readline_def Let_def)
qed


section \<open>Synthetic files\<close>

lemma str_split_single: "d \<notin> set l \<Longrightarrow> str_split d l = [l]"
  by (induction l) auto

lemma str_split_append: "d \<notin> set l \<Longrightarrow> str_split d (l @ d # s) = l # str_split d s"
  by (induction l) auto

lemma str_split_lines:
  "list_all (\<lambda>l. d \<notin> set l) ls \<Longrightarrow>
     str_split d (concat (map (\<lambda>l. l @ [d]) ls) @ s) = ls @ str_split d s"
  by (induction ls) (auto simp: str_split_append)

lemma join_lines_Cons:
  "ls \<noteq> [] \<Longrightarrow> join_lines eol (l # ls) = l @ NL # join_lines eol ls"
  by (simp add: join_lines_def)

lemma join_lines_append:
  "ls \<noteq> [] \<Longrightarrow> join_lines eol (js @ ls) = concat (map (\<lambda>l. l @ [NL]) js) @ join_lines eol ls"
  by (induction js) (auto simp: join_lines_Cons)

lemma text_lines_join:
  assumes "list_all (\<lambda>l. NL \<notin> set l) ls" and "ls \<noteq> [] \<Longrightarrow> last ls \<noteq> []"
  shows "text_lines (join_lines eol ls) = ls"
proof (cases "ls = []")
  case True
  then show ?thesis by (simp add: text_lines_def join_lines_def)
next
  case False
  then have ls: "ls = butlast ls @ [last ls]" by simp
  from assms(1) have b: "list_all (\<lambda>l. NL \<notin> set l) (butlast ls)"
    by (auto simp: list_all_iff dest: in_set_butlastD)
  from assms(1) False have l: "NL \<notin> set (last ls)"
    by (auto simp: list_all_iff)
  from assms(2) False have ne: "last ls \<noteq> []" by simp
  show ?thesis
  proof (cases eol)
    case True
    have "str_split NL (join_lines eol ls) = butlast ls @ [last ls, []]"
      using False True str_split_lines[OF b, of "last ls @ [NL]"] str_split_append[OF l, of "[]"]
      by (simp add: join_lines_def)
    then show ?thesis using ls by (simp add: text_lines_def Let_def butlast_append)
  next
    case no: False
    have "str_split NL (join_lines eol ls) = butlast ls @ [last ls]"
      using False no str_split_lines[OF b, of "last ls"] str_split_single[OF l]
      by (simp add: join_lines_def)
    then show ?thesis using ls ne by (simp add: text_lines_def Let_def)
  qed
qed

lemma readlines_lines:
  "list_all (\<lambda>l. NL \<notin> set l) ls \<Longrightarrow>
     readlines (concat (map (\<lambda>l. l @ [NL]) ls) @ s) = map (\<lambda>l. l @ [NL]) ls @ readlines s"
  by (induction ls) (auto simp: readlines_line)

lemma readline_line: "NL \<notin> set l \<Longrightarrow> readline (l @ NL # s) = l @ [NL]"
  by (induction l) auto

lemma readline_last: "NL \<notin> set l \<Longrightarrow> readline l = l"
  by (induction l) auto

lemma field_count_nl: "field_count (l @ [NL]) = field_count l"
  by (simp add: field_count_def length_str_split)

lemma hd_readlines_join:
  assumes "ls \<noteq> []" and "NL \<notin> set (hd ls)" and "hd ls \<noteq> []"
  shows "readlines (join_lines eol ls) \<noteq> [] \<and>
         field_count (hd (readlines (join_lines eol ls))) = field_count (hd ls)"
proof (cases ls)
  case Nil
  with assms show ?thesis by simp
next
  case (Cons l rest)
  show ?thesis
  proof (cases "rest = []")
    case True
    with Cons assms show ?thesis
      apply (cases eol)
       apply (simp_all add: join_lines_def)
      using readlines_line[of l "[]"] field_count_nl[of l]
       apply simp
      using readlines_unfold[of l] readline_last[of l] by simp
  next
    case False
    with Cons assms readlines_line[of l "join_lines eol rest"] field_count_nl[of l]
    show ?thesis by (simp add: join_lines_Cons)
  qed
qed


section \<open>What the reader returns\<close>

lemma quote_join_lines:
  "list_all (\<lambda>l. QUOTE \<notin> set l) ls \<Longrightarrow> QUOTE \<notin> set (join_lines eol ls)"
  by (auto simp: join_lines_def list_all_iff dest: in_set_butlastD)

lemma not_blank_not_Nil: "\<not> is_blank d l \<Longrightarrow> l \<noteq> []"
  by (auto simp: is_blank_def)

lemma length_range_index [simp]: "length (range_index w) = w"
  by (simp add: range_index_def)

lemma pad_row_full: "length r = w \<Longrightarrow> pad_row w r = r"
  by (simp add: pad_row_def)

lemma length_pad_row: "length r \<le> w \<Longrightarrow> length (pad_row w r) = w"
  by (simp add: pad_row_def)

lemma read_csv_matrix:
  assumes "list_all (\<lambda>l. NL \<notin> set l \<and> QUOTE \<notin> set l \<and> \<not> is_blank TAB l) data"
    and "data \<noteq> []"
    and "case nr of None \<Rightarrow> True | Some k \<Rightarrow> 0 \<le> k"
  shows "read_csv (join_lines eol data)
           \<lparr>header = None, sep = TAB, index_col = ic, nrows = nr, names = None, usecols = None\<rparr> =
         (build_frame (range_index (length (str_split TAB (hd data)))) ic
           (map (str_split TAB) (case nr of None \<Rightarrow> data | Some k \<Rightarrow> take (nat k) data))
            :: error + 'n dataframe)"
proof -
  from assms(1) have q: "QUOTE \<notin> set (join_lines eol data)"
    by (intro quote_join_lines) (auto simp: list_all_iff)
  from assms(2) have "last data \<in> set data" by simp
  with assms(1) have "last data \<noteq> []"
    by (auto simp: list_all_iff is_blank_def)
  with assms(1) have tl: "text_lines (join_lines eol data) = data"
    by (intro text_lines_join) (auto simp: list_all_iff)
  from assms(1) have f: "filter (\<lambda>l. \<not> is_blank TAB l) data = data"
    by (auto simp: list_all_iff)
  have recs: "filter (\<lambda>l. \<not> is_blank TAB l) (text_lines (join_lines eol data)) = data"
    by (simp add: tl f)
  have n: "\<not> (case nr of None \<Rightarrow> False | Some n \<Rightarrow> n < 0)"
    using assms(3) by (cases nr) auto
  from assms(2) have w: "(case map (str_split TAB) data of [] \<Rightarrow> 0 | r # _ \<Rightarrow> length r) =
      length (str_split TAB (hd data))"
    by (cases data) auto
  show ?thesis
    unfolding read_csv_def using q n assms(2) by (simp add: recs Let_def w)
qed

lemma build_frame_None:
  fixes cols :: "'n scalar list"
  assumes "list_all (\<lambda>r. length r = length cols) cells"
  shows "build_frame cols None cells =
           Inr \<lparr>index = range_index (length cells), index_name = None, columns = cols,
                rows = map (map to_cell) cells\<rparr>"
proof -
  from assms have "\<not> list_ex (\<lambda>r. length cols < length r) cells"
    by (auto simp: list_all_iff list_ex_iff)
  moreover from assms
  have "map (\<lambda>r. pad_row (length cols) (map to_cell r)) cells =
          (map (map to_cell) cells :: 'n scalar list list)"
    by (auto simp: list_all_iff pad_row_full)
  ultimately show ?thesis by (simp add: build_frame_def)
qed

lemma drop_nth_0: "drop_nth 0 xs = tl xs"
  by (simp add: drop_nth_def drop_Suc)

lemma build_frame_Some0:
  fixes cols :: "'n scalar list"
  assumes "list_all (\<lambda>r. length r = length cols) cells" and "cols \<noteq> []"
  shows "build_frame cols (Some 0) cells =
           Inr \<lparr>index = map (\<lambda>r. nth_cell (map to_cell r) 0) cells, index_name = Some (cols ! 0),
                columns = tl cols, rows = map (\<lambda>r. tl (map to_cell r)) cells\<rparr>"
proof -
  from assms have "\<not> list_ex (\<lambda>r. length cols < length r) cells"
    by (auto simp: list_all_iff list_ex_iff)
  moreover from assms
  have "\<forall>r\<in>set cells. pad_row (length cols) (map to_cell r) = (map to_cell r :: 'n scalar list)"
    by (auto simp: list_all_iff pad_row_full)
  ultimately show ?thesis using assms(2) by (auto simp: build_frame_def drop_nth_0)
qed

text \<open>What every table read with the default index looks like.\<close>

lemma build_frame_rect:
  assumes "build_frame cols None cells = Inr df"
  shows "index df = range_index (length (rows df)) \<and> columns df = cols \<and>
         list_all (\<lambda>r. length r = length cols) (rows df)"
proof -
  from assms have no: "\<not> list_ex (\<lambda>r. length cols < length r) cells"
    by (auto simp: build_frame_def split: if_splits)
  with assms have df: "df = \<lparr>index = range_index (length cells), index_name = None, columns = cols,
      rows = map (\<lambda>r. pad_row (length cols) (map to_cell r)) cells\<rparr>"
    by (simp add: build_frame_def)
  from no have "list_all (\<lambda>r. length (pad_row (length cols) (map to_cell r)) = length cols) cells"
    by (auto simp: list_all_iff list_ex_iff intro!: length_pad_row)
  then show ?thesis by (simp add: df list_all_iff)
qed

lemma read_csv_rect:
  assumes "read_csv text kw = Inr df" and "index_col kw = None" and "names kw = None"
  shows "index df = range_index (length (rows df)) \<and>
         columns df = range_index (length (columns df)) \<and>
         list_all (\<lambda>r. length r = length (columns df)) (rows df)"
proof -
  from assms obtain cols cells where b: "build_frame (range_index cols) None cells = Inr df"
    by (auto simp: read_csv_def Let_def split: if_splits)
  from build_frame_rect[OF b] show ?thesis by simp
qed

lemma skip_rows_is_read_csv:
  assumes "weight_matrix_file_skip_rows fs path n kw = Some (Inr df)"
  shows "\<exists>t. read_csv t kw = Inr df"
  using assms
  by (auto simp: weight_matrix_file_skip_rows_def Let_def
      split: option.splits if_splits prod.splits)


lemma read_csv_genes:
  assumes "list_all one_field ids"
  shows "read_csv (join_lines eol ids)
           \<lparr>header = None, sep = CHR '','', index_col = None, nrows = None,
            names = Some [''genes''], usecols = None\<rparr> =
         (Inr \<lparr>index = range_index (length ids), index_name = None,
               columns = [StrV ''genes''], rows = map (\<lambda>s. [to_cell s]) ids\<rparr>
            :: error + 'n dataframe)"
proof -
  from assms have q: "QUOTE \<notin> set (join_lines eol ids)"
    by (intro quote_join_lines) (auto simp: list_all_iff one_field_def)
  have "last ids \<noteq> []" if "ids \<noteq> []"
  proof -
    from that have "last ids \<in> set ids" by simp
    with assms show ?thesis by (auto simp: list_all_iff one_field_def is_blank_def)
  qed
  with assms have tl: "text_lines (join_lines eol ids) = ids"
    by (intro text_lines_join) (auto simp: list_all_iff one_field_def)
  from assms have f: "filter (\<lambda>l. \<not> is_blank (CHR '','') l) ids = ids"
    by (auto simp: list_all_iff one_field_def)
  from assms have sp: "map (str_split (CHR '','')) ids = map (\<lambda>s. [s]) ids"
    by (auto simp: list_all_iff one_field_def str_split_single)
  have cells: "list_all (\<lambda>r. length r = length [StrV ''genes'' :: 'n scalar]) (map (\<lambda>s. [s]) ids)"
    by (simp add: list_all_iff)
  have tc: "map (map to_cell) (map (\<lambda>s. [s]) ids) =
              (map (\<lambda>s. [to_cell s]) ids :: 'n scalar list list)"
    by simp
  have bf: "build_frame [StrV ''genes''] None (map (\<lambda>s. [s]) ids) =
          (Inr \<lparr>index = range_index (length ids), index_name = None,
               columns = [StrV ''genes''], rows = map (\<lambda>s. [to_cell s]) ids\<rparr>
            :: error + 'n dataframe)"
    using build_frame_None[OF cells] tc by simp
  have recs: "filter (\<lambda>l. \<not> is_blank (CHR '','') l) (text_lines (join_lines eol ids)) = ids"
    by (simp add: tl f)
  have wd: "\<not> length [''genes''] < (case map (\<lambda>s. [s]) ids of [] \<Rightarrow> 0 | r # _ \<Rightarrow> length r)"
    by (cases ids) auto
  show ?thesis
    unfolding read_csv_def using q wd
    by (simp add: recs sp bf Let_def del: map_map)
qed

lemma find_column_last: "c \<notin> set xs \<Longrightarrow> find_column c (xs @ [c]) = Some (length xs)"
  by (induction xs) auto

lemma count_list_last: "c \<notin> set xs \<Longrightarrow> count_list (xs @ [c]) c = 1"
  by (induction xs) auto

lemma genes_not_in_range: "StrV s \<notin> set (range_index w)"
  by (auto simp: range_index_def)

lemma nth_cell_last: "length a = w \<Longrightarrow> nth_cell (a @ [x]) w = x"
  by (simp add: nth_cell_def nth_append)

lemma drop_nth_last: "length a = w \<Longrightarrow> drop_nth w (a @ [x]) = a"
  by (simp add: drop_nth_def)

lemma length_row_or_nan:
  "list_all (\<lambda>r. length r = length (columns df)) (rows df) \<Longrightarrow>
     length (row_or_nan df i) = length (columns df)"
  by (auto simp: row_or_nan_def list_all_iff)

lemma attach_genes:
  fixes wm :: "'n dataframe"
  assumes "index wm = range_index (length (rows wm))"
    and "columns wm = range_index w"
    and "list_all (\<lambda>r. length r = length (columns wm)) (rows wm)"
    and "gdf = \<lparr>index = range_index (length ids), index_name = None,
                columns = [StrV ''genes''], rows = map (\<lambda>s. [to_cell s]) ids\<rparr>"
  shows "\<exists>cf. concat_axis1 wm gdf = Inr cf \<and>
           set_index cf (StrV ''genes'') =
             Inr \<lparr>index = map (\<lambda>i. if i < length ids then to_cell (ids ! i) else NaN)
                             [0..<max (length (rows wm)) (length ids)],
                  index_name = Some (StrV ''genes''),
                  columns = range_index w,
                  rows = map (row_or_nan wm) [0..<max (length (rows wm)) (length ids)]\<rparr>"
proof -
  let ?m = "max (length (rows wm)) (length ids)"
  let ?cf = "\<lparr>index = range_index ?m, index_name = None,
              columns = range_index w @ [StrV ''genes''],
              rows = map (\<lambda>i. row_or_nan wm i @ row_or_nan gdf i) [0..<?m]\<rparr> :: 'n dataframe"
  have c: "concat_axis1 wm gdf = Inr ?cf"
    using assms(1,2,4) by (simp add: concat_axis1_def Let_def)
  have len: "length (row_or_nan wm i) = w" for i
    using length_row_or_nan[OF assms(3)] assms(2) by simp
  have g: "row_or_nan gdf i = [if i < length ids then to_cell (ids ! i) else NaN]" for i
    by (simp add: assms(4) row_or_nan_def)
  have fc: "find_column (StrV ''genes'') (range_index w @ [StrV ''genes'' :: 'n scalar]) = Some w"
    by (rule find_column_last[OF genes_not_in_range, simplified])
  have cl: "count_list (range_index w @ [StrV ''genes'' :: 'n scalar]) (StrV ''genes'') = 1"
    by (rule count_list_last[OF genes_not_in_range])
  have dn: "drop_nth w (range_index w @ [StrV ''genes'' :: 'n scalar]) = range_index w"
    by (rule drop_nth_last) simp
  have "set_index ?cf (StrV ''genes'') =
             Inr \<lparr>index = map (\<lambda>i. if i < length ids then to_cell (ids ! i) else NaN) [0..<?m],
                  index_name = Some (StrV ''genes''),
                  columns = range_index w,
                  rows = map (row_or_nan wm) [0..<?m]\<rparr>"
    by (simp add: set_index_def fc count_list_0_iff genes_not_in_range dn g nth_cell_last[OF len] drop_nth_last[OF len] comp_def)
  with c show ?thesis by blast
qed


section \<open>The loader on a synthetic file, and with a genes file\<close>

lemma skip_rows_synthetic:
  assumes fs: "fs path = Some t"
    and tr: "universal_newlines t = join_lines eol (junk @ data)"
    and ne: "data \<noteq> []"
    and junk: "list_all (\<lambda>l. NL \<notin> set l \<and> int (field_count l) < n) junk"
    and hd: "NL \<notin> set (hd data)" "hd data \<noteq> []" "n \<le> int (field_count (hd data))"
  shows "weight_matrix_file_skip_rows fs path n kw =
           (Some (read_csv (join_lines eol data) kw) :: (error + 'n dataframe) option)"
proof -
  let ?pre = "map (\<lambda>l. l @ [NL]) junk"
  let ?rest = "join_lines eol data"
  have split: "join_lines eol (junk @ data) = concat ?pre @ ?rest"
    using ne by (rule join_lines_append)
  from junk have nl: "list_all (\<lambda>l. NL \<notin> set l) junk"
    by (auto simp: list_all_iff)
  have "readlines (join_lines eol (junk @ data)) = ?pre @ readlines ?rest"
    unfolding split using nl by (rule readlines_lines)
  then have rl: "file_lines t = ?pre @ readlines ?rest"
    by (simp add: file_lines_readlines tr)
  from hd_readlines_join[OF ne hd(1,2), of eol]
  have rne: "readlines ?rest \<noteq> []"
    and fc: "field_count (hd (readlines ?rest)) = field_count (hd data)"
    by simp_all
  have i: "length junk < length (file_lines t)"
    using rne by (simp add: rl)
  have tk: "take (length junk) (file_lines t) = ?pre"
    by (simp add: rl)
  have short: "list_all (\<lambda>l. int (field_count l) < n) (take (length junk) (file_lines t))"
    unfolding tk using junk by (auto simp: list_all_iff field_count_nl)
  have "file_lines t ! length junk = hd (readlines ?rest)"
    using rne by (simp add: rl nth_append hd_conv_nth)
  with fc hd(3) have long: "n \<le> int (field_count (file_lines t ! length junk))"
    by simp
  have dr: "concat (drop (length junk) (file_lines t)) = ?rest"
    by (simp add: rl concat_readlines)
  from skip_rows_found[of fs path t "length junk" n kw, OF fs i short long]
  show ?thesis by (simp add: parsed_text_is_rest dr)
qed

lemma genes_row_labels:
  fixes wm :: "'n dataframe"
  assumes g: "truthy_str path_to_genes_file"
    and h: "weight_matrix_file_skip_rows fs path_to_file n_features
              \<lparr>header = None, sep = TAB, index_col = None,
               nrows = (if truthy_int n_genes then n_genes else None),
               names = None, usecols = None\<rparr> = Some (Inr wm)"
    and ids: "fs (path_of path_to_genes_file) = Some gt"
      "universal_newlines gt = join_lines eol ids" "list_all one_field ids"
  shows "\<exists>w. columns wm = range_index w \<and>
           list_all (\<lambda>r. length r = w) (rows wm) \<and>
           load_weight_matrix fs path_to_file n_features n_genes path_to_genes_file =
             Some (Inr \<lparr>index = map (\<lambda>i. if i < length ids then to_cell (ids ! i) else NaN)
                                  [0..<max (length (rows wm)) (length ids)],
                        index_name = Some (StrV ''genes''),
                        columns = range_index w,
                        rows = map (row_or_nan wm) [0..<max (length (rows wm)) (length ids)]\<rparr>)"
proof -
  from skip_rows_is_read_csv[OF h] obtain t where
    t: "read_csv t \<lparr>header = None, sep = TAB, index_col = None,
               nrows = (if truthy_int n_genes then n_genes else None),
               names = None, usecols = None\<rparr> = Inr wm"
    by blast
  from read_csv_rect[OF t]
  have wm: "index wm = range_index (length (rows wm))"
       "columns wm = range_index (length (columns wm))"
       "list_all (\<lambda>r. length r = length (columns wm)) (rows wm)"
    by simp_all
  let ?gdf = "\<lparr>index = range_index (length ids), index_name = None,
               columns = [StrV ''genes''], rows = map (\<lambda>s. [to_cell s]) ids\<rparr> :: 'n dataframe"
  have rg: "read_csv_path fs (path_of path_to_genes_file)
              \<lparr>header = None, sep = CHR '','', index_col = None, nrows = None,
               names = Some [''genes''], usecols = None\<rparr> = Inr ?gdf"
    using ids(1,2) read_csv_genes[OF ids(3), of eol] by (simp add: read_csv_path_def)
  from attach_genes[OF wm(1) wm(2) wm(3) refl, of ids]
  obtain cf where cf: "concat_axis1 wm ?gdf = Inr cf"
    and si: "set_index cf (StrV ''genes'') =
             Inr \<lparr>index = map (\<lambda>i. if i < length ids then to_cell (ids ! i) else NaN)
                             [0..<max (length (rows wm)) (length ids)],
                  index_name = Some (StrV ''genes''),
                  columns = range_index (length (columns wm)),
                  rows = map (row_or_nan wm) [0..<max (length (rows wm)) (length ids)]\<rparr>"
    by blast
  have "load_weight_matrix fs path_to_file n_features n_genes path_to_genes_file =
          Some (set_index cf (StrV ''genes''))"
    using g h rg cf by (cases "truthy_int n_genes") (simp_all add: load_weight_matrix_def Let_def)
  with si wm show ?thesis by auto
qed

lemma plain_char_facts:
  "plain_char c \<Longrightarrow>
     c \<noteq> NL \<and> c \<noteq> QUOTE \<and> c \<noteq> CHR '','' \<and> c \<noteq> CHR '' '' \<and> c \<noteq> TAB"
  by (auto simp: plain_char_def)

lemma gene_id_one_field: "gene_id s \<Longrightarrow> one_field s"
  by (cases s)
    (auto simp: gene_id_def one_field_def list_all_iff is_blank_def dest: plain_char_facts)

lemma gene_id_to_cell: "gene_id s \<Longrightarrow> to_cell s = StrV s"
  by (simp add: gene_id_def to_cell_def)

lemma nrows_of_n_genes:
  assumes "case n_genes of None \<Rightarrow> True | Some k \<Rightarrow> 0 < k"
  shows "(if truthy_int n_genes then n_genes else None) = n_genes"
    and "case n_genes of None \<Rightarrow> True | Some k \<Rightarrow> 0 \<le> k"
    and "length (case n_genes of None \<Rightarrow> data | Some k \<Rightarrow> take (nat k) data) =
           kept_rows n_genes (length data)"
  using assms by (cases n_genes; simp add: truthy_int_def kept_rows_def)+


section \<open>Properties of the weight matrix loader\<close>

text \<open>
  C5. A zero-byte weight matrix file makes \<^verbatim>\<open>load_weight_matrix\<close> raise the empty-file
  error, whose message names the file; no table is returned, and nothing of the file
  or of the genes file is parsed: the outcome is the same for every \<^verbatim>\<open>n_features\<close>,
  \<^verbatim>\<open>n_genes\<close> and genes path.
\<close>

theorem load_weight_matrix_empty_file:
  assumes "fs path_to_file = Some []"
  shows "load_weight_matrix fs path_to_file n_features n_genes path_to_genes_file =
           (Some (Inl (ValueError (path_to_file @ '' is empty.''))) :: (error + 'n dataframe) option)"
  using assms by (simp add: load_weight_matrix_def weight_matrix_file_skip_rows_def Let_def)

theorem load_weight_matrix_empty_file_witness:
  "load_weight_matrix example_fs ''empty.tsv'' 3 (Some 5) (Some ''nowhere.txt'') =
     (Some (Inl (ValueError ''empty.tsv is empty.'')) :: (error + nat dataframe) option)"
  using load_weight_matrix_empty_file
    [where 'n = nat, of example_fs "''empty.tsv''" 3 "Some 5" "Some ''nowhere.txt''"]
  by (simp add: example_fs_def)

text \<open>
  C2. In a weight matrix file with a line of at least \<^verbatim>\<open>n_features\<close> tab-separated fields,
  let line \<open>i\<close> be the first such line, the lines being those Python reads, whichever
  line ends the file has. The loop of the row-skipping helper returns the offset at
  which line \<open>i\<close> starts, the sum of the lengths the lines before it have in the file;
  the helper parses exactly what is left of the file at that offset, which is the text
  of the lines from line \<open>i\<close> on, so the lines before it are discarded and line \<open>i\<close> is the
  first line read from that offset.
\<close>

theorem skip_rows_starts_at_first_qualifying_line:
  assumes "fs path_to_file = Some t"
    and "i < length (file_lines t)"
    and "list_all (\<lambda>l. int (field_count l) < n_features) (take i (file_lines t))"
    and "n_features \<le> int (field_count (file_lines t ! i))"
  shows "map_option fst
           (skip_loop n_features (snd (file_readline \<lparr>content = t, pos = 0\<rparr>)) 0
              (str_split TAB (fst (file_readline \<lparr>content = t, pos = 0\<rparr>)))) =
           Some (length (concat (take i (raw_lines t))))
       \<and> weight_matrix_file_skip_rows fs path_to_file n_features kwargs =
           Some (read_csv
                   (remaining \<lparr>content = t, pos = length (concat (take i (raw_lines t)))\<rparr>)
                   kwargs :: error + 'n dataframe)
       \<and> remaining \<lparr>content = t, pos = length (concat (take i (raw_lines t)))\<rparr> =
           concat (drop i (file_lines t))
       \<and> fst (file_readline \<lparr>content = t, pos = length (concat (take i (raw_lines t)))\<rparr>) =
           file_lines t ! i"
proof -
  let ?off = "length (concat (take i (raw_lines t)))"
  from skip_loop_found[of i 0 t n_features] assms(2-4)
  have loop: "skip_loop n_features \<lparr>content = t, pos = length (raw_line t)\<rparr> 0
                (str_split TAB (universal_newlines (raw_line t))) =
              Some (?off, \<lparr>content = t,
                           pos = length (concat (take (Suc i) (raw_lines t)))\<rparr>)"
    by simp
  have a: "map_option fst
             (skip_loop n_features (snd (file_readline \<lparr>content = t, pos = 0\<rparr>)) 0
                (str_split TAB (fst (file_readline \<lparr>content = t, pos = 0\<rparr>)))) = Some ?off"
    using loop by (simp add: file_readline_def Let_def)
  have b: "weight_matrix_file_skip_rows fs path_to_file n_features kwargs =
             Some (read_csv (remaining \<lparr>content = t, pos = ?off\<rparr>) kwargs
                     :: error + 'n dataframe)"
    using skip_rows_found[of fs path_to_file t i n_features kwargs] assms
    by (simp add: remaining_def)
  have c: "remaining \<lparr>content = t, pos = ?off\<rparr> = concat (drop i (file_lines t))"
    by (simp add: remaining_def parsed_text_is_rest)
  have ls: "raw_lines (drop ?off t) = drop i (raw_lines t)"
    by (rule raw_lines_drop_boundary)
  from assms(2) have il: "i < length (raw_lines t)"
    by (simp add: length_file_lines)
  with ls have ne: "drop ?off t \<noteq> []" by auto
  from raw_lines_unfold[OF ne] ls il
  have "raw_line (drop ?off t) = raw_lines t ! i"
    by (metis hd_drop_conv_nth list.sel(1))
  with il have d: "fst (file_readline \<lparr>content = t, pos = ?off\<rparr>) = file_lines t ! i"
    by (simp add: file_readline_def Let_def file_lines_def)
  from a b c d show ?thesis by blast
qed

lemma example_dos_lines:
  "file_lines (''junk'' @ [CR, NL] @ ''g1'' @ [TAB] @ ''1'' @ [TAB] @ ''2'' @ [CR, NL] @
               ''g2'' @ [TAB] @ ''3'' @ [TAB] @ ''4'' @ [CR, NL]) =
     [''junk'' @ [NL], ''g1'' @ [TAB] @ ''1'' @ [TAB] @ ''2'' @ [NL],
      ''g2'' @ [TAB] @ ''3'' @ [TAB] @ ''4'' @ [NL]]"
  by code_simp

lemma example_dos_raw_lines:
  "raw_lines (''junk'' @ [CR, NL] @ ''g1'' @ [TAB] @ ''1'' @ [TAB] @ ''2'' @ [CR, NL] @
              ''g2'' @ [TAB] @ ''3'' @ [TAB] @ ''4'' @ [CR, NL]) =
     [''junk'' @ [CR, NL], ''g1'' @ [TAB] @ ''1'' @ [TAB] @ ''2'' @ [CR, NL],
      ''g2'' @ [TAB] @ ''3'' @ [TAB] @ ''4'' @ [CR, NL]]"
  by code_simp

theorem skip_rows_starts_at_first_qualifying_line_witness:
  "map_option fst
     (skip_loop 3
        (snd (file_readline \<lparr>content = the (example_fs ''dos.tsv''), pos = 0\<rparr>)) 0
        (str_split TAB (fst (file_readline \<lparr>content = the (example_fs ''dos.tsv''), pos = 0\<rparr>)))) =
     Some 6
   \<and> weight_matrix_file_skip_rows example_fs ''dos.tsv'' 3
      \<lparr>header = None, sep = TAB, index_col = Some 0, nrows = None, names = None,
       usecols = None\<rparr> =
    (Some (read_csv (''g1'' @ [TAB] @ ''1'' @ [TAB] @ ''2'' @ [NL] @
                     ''g2'' @ [TAB] @ ''3'' @ [TAB] @ ''4'' @ [NL])
             \<lparr>header = None, sep = TAB, index_col = Some 0, nrows = None, names = None,
              usecols = None\<rparr>)
      :: (error + nat dataframe) option)"
proof -
  define t where "t = ''junk'' @ [CR, NL] @ ''g1'' @ [TAB] @ ''1'' @ [TAB] @ ''2'' @ [CR, NL] @
                      ''g2'' @ [TAB] @ ''3'' @ [TAB] @ ''4'' @ [CR, NL]"
  have fs: "example_fs ''dos.tsv'' = Some t"
    by (simp add: example_fs_def t_def)
  have fl: "file_lines t = [''junk'' @ [NL], ''g1'' @ [TAB] @ ''1'' @ [TAB] @ ''2'' @ [NL],
                            ''g2'' @ [TAB] @ ''3'' @ [TAB] @ ''4'' @ [NL]]"
    unfolding t_def by (rule example_dos_lines)
  have rl: "raw_lines t = [''junk'' @ [CR, NL], ''g1'' @ [TAB] @ ''1'' @ [TAB] @ ''2'' @ [CR, NL],
                           ''g2'' @ [TAB] @ ''3'' @ [TAB] @ ''4'' @ [CR, NL]]"
    unfolding t_def by (rule example_dos_raw_lines)
  have 1: "1 < length (file_lines t)"
    by (simp add: fl)
  have 2: "list_all (\<lambda>l. int (field_count l) < 3) (take 1 (file_lines t))"
    by (simp add: fl field_count_def)
  have 3: "3 \<le> int (field_count (file_lines t ! 1))"
    by (simp add: fl field_count_def)
  have off: "length (concat (take 1 (raw_lines t))) = 6"
    by (simp add: rl)
  have rest: "concat (drop 1 (file_lines t)) =
                ''g1'' @ [TAB] @ ''1'' @ [TAB] @ ''2'' @ [NL] @
                ''g2'' @ [TAB] @ ''3'' @ [TAB] @ ''4'' @ [NL]"
    by (simp add: fl)
  from skip_rows_starts_at_first_qualifying_line[where 'n = nat, of example_fs "''dos.tsv''" t 1 3
      "\<lparr>header = None, sep = TAB, index_col = Some 0, nrows = None, names = None,
        usecols = None\<rparr>", OF fs 1 2 3]
  show ?thesis
    by (simp only: off rest fs option.sel)
qed

text \<open>
  C3. In a non-empty weight matrix file in which no line has \<^verbatim>\<open>n_features\<close> tab-separated
  fields, the scan does not stop at the end of the file: \<^verbatim>\<open>load_weight_matrix\<close> never
  returns, so it raises no parse error either.
\<close>

theorem load_weight_matrix_scan_never_ends:
  assumes "fs path_to_file = Some text"
    and "text \<noteq> []"
    and "short_lines n_features text"
  shows "load_weight_matrix fs path_to_file n_features n_genes path_to_genes_file =
           (None :: (error + 'n dataframe) option)"
proof -
  have "weight_matrix_file_skip_rows fs path_to_file n_features kw =
          (None :: (error + 'n dataframe) option)" for kw
    using assms by (rule skip_rows_diverges)
  then show ?thesis
    by (simp add: load_weight_matrix_def Let_def)
qed

lemma example_short: "short_lines 2 (''gene'' @ [NL])"
  by code_simp

theorem load_weight_matrix_scan_never_ends_witness:
  "load_weight_matrix example_fs ''short.tsv'' 2 None None =
     (None :: (error + nat dataframe) option)"
proof -
  have fs: "example_fs ''short.tsv'' = Some (''gene'' @ [NL])"
    by (simp add: example_fs_def)
  have ne: "''gene'' @ [NL] \<noteq> []"
    by simp
  from load_weight_matrix_scan_never_ends
    [where 'n = nat, of example_fs "''short.tsv''" "''gene'' @ [NL]" 2 None None,
      OF fs ne example_short]
  show ?thesis .
qed

text \<open>
  A file of two rows of three fields, the rows separated by a carriage return: read for
  four features, it is two lines without enough fields, and the helper never returns.
\<close>

lemma example_cr_lines:
  "file_lines (''g1'' @ [TAB] @ ''1'' @ [TAB] @ ''2'' @ [CR] @
               ''g2'' @ [TAB] @ ''3'' @ [TAB] @ ''4'') =
     [''g1'' @ [TAB] @ ''1'' @ [TAB] @ ''2'' @ [NL], ''g2'' @ [TAB] @ ''3'' @ [TAB] @ ''4'']"
  by code_simp

lemma example_cr_never_returns:
  "weight_matrix_file_skip_rows example_fs ''mac.tsv'' 4 kw =
     (None :: (error + nat dataframe) option)"
proof -
  define t where "t = ''g1'' @ [TAB] @ ''1'' @ [TAB] @ ''2'' @ [CR] @
                      ''g2'' @ [TAB] @ ''3'' @ [TAB] @ ''4''"
  have fs: "example_fs ''mac.tsv'' = Some t"
    by (simp add: example_fs_def t_def)
  have ne: "t \<noteq> []"
    by (simp add: t_def)
  have fl: "file_lines t =
              [''g1'' @ [TAB] @ ''1'' @ [TAB] @ ''2'' @ [NL], ''g2'' @ [TAB] @ ''3'' @ [TAB] @ ''4'']"
    unfolding t_def by (rule example_cr_lines)
  have "short_lines 4 t"
    by (simp add: short_lines_def fl field_count_def)
  with fs ne show ?thesis
    by (rule skip_rows_diverges)
qed

text \<open>
  C10. With \<^verbatim>\<open>n_genes = 0\<close> the row cap is not applied: \<^verbatim>\<open>load_weight_matrix\<close> does what it
  does when \<^verbatim>\<open>n_genes\<close> is omitted.
\<close>

theorem load_weight_matrix_n_genes_zero:
  "load_weight_matrix fs path_to_file n_features (Some 0) path_to_genes_file =
   (load_weight_matrix fs path_to_file n_features None path_to_genes_file
      :: (error + 'n dataframe) option)"
  by (simp add: load_weight_matrix_def truthy_int_def Let_def)

lemma example_all_rows:
  "load_weight_matrix example_fs ''m.tsv'' 2 None None =
     (Some (Inr \<lparr>index = [StrV ''g1'', StrV ''g2''], index_name = Some (StrV ''genes''),
                  columns = [IntV 0, IntV 1],
                  rows = [[StrV ''1'', StrV ''2''], [StrV ''3'', StrV ''4'']]\<rparr>)
       :: (error + nat dataframe) option)"
  by code_simp

theorem load_weight_matrix_n_genes_zero_witness:
  "load_weight_matrix example_fs ''m.tsv'' 2 (Some 0) None =
     (Some (Inr \<lparr>index = [StrV ''g1'', StrV ''g2''], index_name = Some (StrV ''genes''),
                  columns = [IntV 0, IntV 1],
                  rows = [[StrV ''1'', StrV ''2''], [StrV ''3'', StrV ''4'']]\<rparr>)
       :: (error + nat dataframe) option)"
  using load_weight_matrix_n_genes_zero[where 'n = nat, of example_fs "''m.tsv''" 2 None]
    example_all_rows
  by simp

text \<open>
  C1 (as amended). Take a weight matrix file that Python reads as junk lines, each with
  fewer than \<^verbatim>\<open>n_features\<close> tab-separated fields, followed by at least one data row,
  whichever line ends the file has; the data rows are unquoted, not blank, and have
  exactly \<^verbatim>\<open>n_features\<close> fields when a genes file is given, and exactly
  \<^verbatim>\<open>n_features + 1\<close> fields (the row label, then the weights) when none is given. With
  \<^verbatim>\<open>n_genes\<close> omitted or positive, and a genes file of one field per line and no more
  lines than rows kept, \<^verbatim>\<open>load_weight_matrix\<close> returns a table with as many rows as
  there are data rows, or the smaller of that and \<^verbatim>\<open>n_genes\<close>, and with the
  \<^verbatim>\<open>n_features\<close> columns \<open>0, ..., n_features - 1\<close>.
\<close>

theorem load_weight_matrix_shape:
  assumes fs: "fs path_to_file = Some t"
    and tr: "universal_newlines t = join_lines eol (junk @ data)"
    and ne: "data \<noteq> []"
    and junk: "list_all (\<lambda>l. NL \<notin> set l \<and> int (field_count l) < n_features) junk"
    and data: "list_all (\<lambda>l. NL \<notin> set l \<and> QUOTE \<notin> set l \<and> \<not> is_blank TAB l \<and>
                  int (field_count l) =
                    n_features + (if truthy_str path_to_genes_file then 0 else 1)) data"
    and cap: "case n_genes of None \<Rightarrow> True | Some k \<Rightarrow> 0 < k"
    and genes: "truthy_str path_to_genes_file \<longrightarrow>
                  fs (path_of path_to_genes_file) = Some gt \<and>
                  universal_newlines gt = join_lines eol' ids \<and>
                  list_all one_field ids \<and> length ids \<le> kept_rows n_genes (length data)"
  shows "\<exists>df :: 'n dataframe.
           load_weight_matrix fs path_to_file n_features n_genes path_to_genes_file =
             Some (Inr df) \<and>
           length (rows df) = kept_rows n_genes (length data) \<and>
           length (index df) = kept_rows n_genes (length data) \<and>
           columns df = range_index (nat n_features) \<and>
           list_all (\<lambda>r. length r = nat n_features) (rows df)"
proof -
  let ?w = "field_count (hd data)"
  let ?wanted = "case n_genes of None \<Rightarrow> data | Some k \<Rightarrow> take (nat k) data"
  let ?cells = "map (str_split TAB) ?wanted"
  note nr = nrows_of_n_genes[OF cap]
  from ne have hdin: "hd data \<in> set data" by simp
  with data have hd: "NL \<notin> set (hd data)" "hd data \<noteq> []" "n_features \<le> int ?w"
    by (auto simp: list_all_iff is_blank_def)
  from data have d3: "list_all (\<lambda>l. NL \<notin> set l \<and> QUOTE \<notin> set l \<and> \<not> is_blank TAB l) data"
    by (auto simp: list_all_iff)
  have sub: "set ?wanted \<subseteq> set data"
    by (cases n_genes) (auto dest: in_set_takeD)
  from data hdin have same: "\<forall>l\<in>set data. field_count l = ?w"
    by (auto simp: list_all_iff) (metis nat_int)
  with sub have cells: "list_all (\<lambda>r. length r = length (range_index ?w :: 'n scalar list)) ?cells"
    by (auto simp: list_all_iff field_count_def)
  have helper: "weight_matrix_file_skip_rows fs path_to_file n_features
                  \<lparr>header = None, sep = TAB, index_col = ic, nrows = n_genes, names = None,
                   usecols = None\<rparr> =
                (Some (build_frame (range_index ?w) ic ?cells) :: (error + 'n dataframe) option)"
    for ic
    using skip_rows_synthetic[where 'n = 'n, of fs path_to_file t eol junk data n_features,
        OF fs tr ne junk hd]
      read_csv_matrix[where 'n = 'n, OF d3 ne nr(2), of eol ic]
    by (simp add: field_count_def)
  show ?thesis
  proof (cases "truthy_str path_to_genes_file")
    case True
    with data hdin have w: "?w = nat n_features"
      by (auto simp: list_all_iff)
    let ?wm = "\<lparr>index = range_index (length ?cells), index_name = None,
                 columns = range_index ?w, rows = map (map to_cell) ?cells\<rparr> :: 'n dataframe"
    have h: "weight_matrix_file_skip_rows fs path_to_file n_features
              \<lparr>header = None, sep = TAB, index_col = None,
               nrows = (if truthy_int n_genes then n_genes else None),
               names = None, usecols = None\<rparr> = Some (Inr ?wm)"
      using helper[of None] build_frame_None[OF cells] by (simp add: nr(1))
    from genes True have g: "fs (path_of path_to_genes_file) = Some gt"
      "universal_newlines gt = join_lines eol' ids"
      "list_all one_field ids" "length ids \<le> kept_rows n_genes (length data)"
      by simp_all
    have len: "length (rows ?wm) = kept_rows n_genes (length data)"
      using nr(3)[of data] by simp
    with g(4) have mx: "max (length (rows ?wm)) (length ids) = kept_rows n_genes (length data)"
      by simp
    from genes_row_labels[of path_to_genes_file fs path_to_file n_features n_genes ?wm gt eol' ids,
        OF True h g(1,2,3)] obtain w' where
      r: "columns ?wm = range_index w'" "list_all (\<lambda>r. length r = w') (rows ?wm)"
      "load_weight_matrix fs path_to_file n_features n_genes path_to_genes_file =
         Some (Inr \<lparr>index = map (\<lambda>i. if i < length ids then to_cell (ids ! i) else NaN)
                                  [0..<max (length (rows ?wm)) (length ids)],
                        index_name = Some (StrV ''genes''),
                        columns = range_index w',
                        rows = map (row_or_nan ?wm) [0..<max (length (rows ?wm)) (length ids)]\<rparr>)"
      by blast
    from r(1) have w': "w' = nat n_features"
      using w by (metis dataframe.select_convs(3) length_range_index)
    have "list_all (\<lambda>r. length r = nat n_features)
            (map (row_or_nan ?wm) [0..<kept_rows n_genes (length data)])"
      using r(2) len w' by (auto simp: list_all_iff row_or_nan_def)
    with r(3) mx w' show ?thesis by simp
  next
    case False
    with data hdin have w: "?w = Suc (nat n_features)" and pos: "0 \<le> n_features"
      by (auto simp: list_all_iff field_count_def length_str_split)
    have cne: "(range_index ?w :: 'n scalar list) \<noteq> []"
      using w by (simp add: range_index_def del: upt_Suc)
    let ?wm = "\<lparr>index = map (\<lambda>r. nth_cell (map to_cell r) 0) ?cells,
                 index_name = Some (range_index ?w ! 0),
                 columns = tl (range_index ?w),
                 rows = map (\<lambda>r. tl (map to_cell r)) ?cells\<rparr> :: 'n dataframe"
    have h: "weight_matrix_file_skip_rows fs path_to_file n_features
              \<lparr>header = None, sep = TAB, index_col = Some 0,
               nrows = (if truthy_int n_genes then n_genes else None),
               names = None, usecols = None\<rparr> = Some (Inr ?wm)"
      using helper[of "Some 0"] build_frame_Some0[OF cells cne] by (simp add: nr(1))
    have lw: "load_weight_matrix fs path_to_file n_features n_genes path_to_genes_file =
            Some (set_columns (index_rename ?wm (StrV ''genes'')) (range_index (nat n_features)))"
      using False h
      by (cases "truthy_int n_genes") (simp_all add: load_weight_matrix_def Let_def)
    have rows: "list_all (\<lambda>r. length r = nat n_features) (map (\<lambda>r. tl (map to_cell r :: 'n scalar list)) ?cells)"
      using cells w by (auto simp: list_all_iff)
    show ?thesis
      using lw rows nr(3)[of data] w
      by (simp add: set_columns_def index_rename_def)
  qed
qed

theorem load_weight_matrix_shape_witness:
  "\<exists>df :: nat dataframe.
     load_weight_matrix example_fs ''x.tsv'' 2 (Some 1) (Some ''one.txt'') = Some (Inr df) \<and>
     length (rows df) = 1 \<and> length (index df) = 1 \<and>
     columns df = range_index 2 \<and> list_all (\<lambda>r. length r = 2) (rows df)"
  using load_weight_matrix_shape[where 'n = nat, of example_fs "''x.tsv''"
      "''junk'' @ [NL] @ ''1'' @ [TAB] @ ''2'' @ [NL] @ ''3'' @ [TAB] @ ''4''" False "[''junk'']"
      "[''1'' @ [TAB] @ ''2'', ''3'' @ [TAB] @ ''4'']" 2 "Some ''one.txt''" "Some 1"
      "''gA''" False "[''gA'']"]
  by (simp add: truthy_str_def path_of_def example_fs_def join_lines_def one_field_def
      is_blank_def field_count_def kept_rows_def)

text \<open>
  Without a genes file, data rows of exactly \<^verbatim>\<open>n_features\<close> fields leave
  \<^verbatim>\<open>n_features - 1\<close> columns once the first one is the index, and the assignment of
  \<^verbatim>\<open>n_features\<close> column labels raises.
\<close>

lemma example_no_genes:
  "load_weight_matrix example_fs ''x.tsv'' 2 None None =
     (Some (Inl (ValueError ''Length mismatch'')) :: (error + nat dataframe) option)"
  by code_simp

theorem load_weight_matrix_shape_counterexample:
  "\<not> (\<exists>df :: nat dataframe.
        load_weight_matrix example_fs ''x.tsv'' 2 None None = Some (Inr df) \<and>
        length (rows df) = 2 \<and> length (columns df) = 2)"
  by (simp add: example_no_genes)

text \<open>
  C4 (as amended). When the helper parses the weight matrix file into \<open>m\<close> rows and the
  genes file holds exactly \<open>m\<close> lines, one gene identifier per line and no header,
  whichever line ends the file has, \<^verbatim>\<open>load_weight_matrix\<close> returns a table whose row
  labels are the identifiers in file order, and whose index is named "genes". A gene
  identifier starts with a letter, is made of printable characters other than space,
  quote and comma, and is not a word pandas reads as a missing value, a number or a
  truth value.
\<close>

theorem load_weight_matrix_row_labels:
  fixes wm :: "'n dataframe"
  assumes "truthy_str path_to_genes_file"
    and "weight_matrix_file_skip_rows fs path_to_file n_features
           \<lparr>header = None, sep = TAB, index_col = None,
            nrows = (if truthy_int n_genes then n_genes else None),
            names = None, usecols = None\<rparr> = Some (Inr wm)"
    and "length (rows wm) = length ids"
    and "fs (path_of path_to_genes_file) = Some gt"
    and "universal_newlines gt = join_lines eol ids"
    and "list_all gene_id ids"
  shows "\<exists>df :: 'n dataframe.
           load_weight_matrix fs path_to_file n_features n_genes path_to_genes_file =
             Some (Inr df) \<and>
           index df = map StrV ids \<and> index_name df = Some (StrV ''genes'')"
proof -
  from assms(6) have one: "list_all one_field ids"
    by (auto simp: list_all_iff gene_id_one_field)
  from genes_row_labels[of path_to_genes_file fs path_to_file n_features n_genes wm gt eol ids,
      OF assms(1,2,4,5) one] assms(3)
  have "load_weight_matrix fs path_to_file n_features n_genes path_to_genes_file =
          Some (Inr \<lparr>index = map (\<lambda>i. if i < length ids then to_cell (ids ! i) else NaN)
                               [0..<length ids],
                     index_name = Some (StrV ''genes''),
                     columns = columns wm,
                     rows = map (row_or_nan wm) [0..<length ids]\<rparr>)"
    by auto
  moreover from assms(6)
  have "map (\<lambda>i. if i < length ids then to_cell (ids ! i) else NaN) [0..<length ids] =
                   (map StrV ids :: 'n scalar list)"
    by (intro nth_equalityI) (simp_all add: list_all_length gene_id_to_cell)
  ultimately show ?thesis by simp
qed

lemma example_parsed:
  "weight_matrix_file_skip_rows example_fs ''x.tsv'' 2
     \<lparr>header = None, sep = TAB, index_col = None, nrows = None, names = None,
      usecols = None\<rparr> =
   (Some (Inr \<lparr>index = [IntV 0, IntV 1], index_name = None, columns = [IntV 0, IntV 1],
               rows = [[StrV ''1'', StrV ''2''], [StrV ''3'', StrV ''4'']]\<rparr>)
     :: (error + nat dataframe) option)"
  by code_simp

lemma example_gene_ids: "list_all gene_id [''gA'', ''gB'']"
  by (simp add: gene_id_def is_letter_def plain_char_def ascii_lower_def value_words_def
      na_values_def)

theorem load_weight_matrix_row_labels_witness:
  "\<exists>df :: nat dataframe.
     load_weight_matrix example_fs ''x.tsv'' 2 None (Some ''genes.txt'') = Some (Inr df) \<and>
     index df = [StrV ''gA'', StrV ''gB''] \<and> index_name df = Some (StrV ''genes'')"
proof -
  have g: "truthy_str (Some ''genes.txt'')"
    by (simp add: truthy_str_def)
  have h: "weight_matrix_file_skip_rows example_fs ''x.tsv'' 2
      \<lparr>header = None, sep = TAB, index_col = None,
       nrows = (if truthy_int None then None else None), names = None, usecols = None\<rparr> =
     (Some (Inr \<lparr>index = [IntV 0, IntV 1], index_name = None, columns = [IntV 0, IntV 1],
               rows = [[StrV ''1'', StrV ''2''], [StrV ''3'', StrV ''4'']]\<rparr>)
       :: (error + nat dataframe) option)"
    using example_parsed by simp
  have m: "length (rows \<lparr>index = [IntV 0, IntV 1], index_name = None,
               columns = [IntV 0, IntV 1 :: nat scalar],
               rows = [[StrV ''1'', StrV ''2''], [StrV ''3'', StrV ''4'']]\<rparr>) =
           length [''gA'', ''gB'']"
    by simp
  have fs: "example_fs (path_of (Some ''genes.txt'')) = Some (''gA'' @ [NL] @ ''gB'' @ [NL])"
    by (simp add: example_fs_def path_of_def)
  have tr: "universal_newlines (''gA'' @ [NL] @ ''gB'' @ [NL]) = join_lines True [''gA'', ''gB'']"
    by (simp add: join_lines_def)
  from load_weight_matrix_row_labels[where 'n = nat, OF g h m fs tr example_gene_ids]
  show ?thesis by simp
qed

text \<open>
  A genes file whose second line is \<^verbatim>\<open>NA\<close>, beside a weight matrix of two rows: the
  reader takes \<^verbatim>\<open>NA\<close> as a missing value, and the second row label is NaN, not the text
  of the line.
\<close>

lemma example_na_label:
  "load_weight_matrix example_fs ''x.tsv'' 2 None (Some ''na.txt'') =
     (Some (Inr \<lparr>index = [StrV ''gA'', NaN], index_name = Some (StrV ''genes''),
                  columns = [IntV 0, IntV 1],
                  rows = [[StrV ''1'', StrV ''2''], [StrV ''3'', StrV ''4'']]\<rparr>)
       :: (error + nat dataframe) option)"
  by code_simp

theorem load_weight_matrix_row_labels_counterexample:
  "\<not> (\<exists>df :: nat dataframe.
        load_weight_matrix example_fs ''x.tsv'' 2 None (Some ''na.txt'') = Some (Inr df) \<and>
        index df = map StrV [''gA'', ''NA''])"
  by (simp add: example_na_label)


section \<open>Properties of the expression dataset loader\<close>

text \<open>
  C6. On a well-formed expression file, one that the reader parses into a table of at
  least one row whose first column holds the gene identifiers, each a \<^verbatim>\<open>str\<close>,
  \<^verbatim>\<open>load_expression_dataset\<close> returns no table: the unary minus applied to the boolean
  array that \<^verbatim>\<open>str.contains\<close> returns raises a type error, before any row is removed and
  before the index is sorted.
\<close>

theorem load_expression_dataset_raises:
  fixes ed :: "'n dataframe"
  assumes "read_table path_to_file
             \<lparr>header = Some 0, sep = TAB, index_col = None, nrows = None,
              names = None, usecols = None\<rparr> = Inr ed"
    and "columns ed = index_on # others"
    and "index_on \<notin> set others"
    and "rows ed \<noteq> []"
    and "list_all (\<lambda>r. is_str (nth_cell r 0)) (rows ed)"
  shows "load_expression_dataset read_table path_to_file = Inl TypeError"
proof -
  let ?ed = "\<lparr>index = map (\<lambda>r. nth_cell r 0) (rows ed), index_name = Some index_on,
              columns = drop_nth 0 (columns ed), rows = map (drop_nth 0) (rows ed)\<rparr>"
  have si: "set_index ed index_on = Inr ?ed"
    using assms(2,3) by (simp add: set_index_def count_list_0_iff)
  have "index_str_contains ?ed ''?'' =
          Inr (map (\<lambda>l. str_contains ''?'' (str_of l)) (index ?ed))"
    using assms(4,5) by (simp add: index_str_contains_def list_all_iff)
  with assms(1,2) si show ?thesis
    by (simp add: load_expression_dataset_def neg_mask_def)
qed

theorem load_expression_dataset_raises_witness:
  "load_expression_dataset example_expression ''e.tsv'' = Inl TypeError"
proof -
  have r: "example_expression ''e.tsv''
             \<lparr>header = Some 0, sep = TAB, index_col = None, nrows = None,
              names = None, usecols = None\<rparr> =
           Inr \<lparr>index = range_index 4, index_name = None,
                columns = [StrV ''gene'', StrV ''s1''],
                rows = [[StrV ''b'', FltV 1], [StrV ''a?'', FltV 2], [StrV ''a'', FltV 3],
                        [StrV ''B'', FltV 3]]\<rparr>"
    by (simp add: example_expression_def)
  show ?thesis
    by (rule load_expression_dataset_raises
        [of example_expression "''e.tsv''" _ "StrV ''gene''" "[StrV ''s1'']", OF r])
      (simp_all add: nth_cell_def is_str_def)
qed


section \<open>Properties of the pathway definitions loader\<close>

lemma pathway_frame:
  "\<exists>pd :: 'n dataframe.
     map_column (pathway_table entries) (StrV ''genes'') split_genes = Inr pd \<and>
     (\<exists>pd'. set_index pd (StrV ''pw'') = Inr pd' \<and>
        find_column (StrV ''genes'') (columns pd') = Some (Suc 0) \<and>
        zip (index pd') (rows pd') = map indexed_row entries)"
proof -
  let ?split = "\<lambda>e :: string \<times> 'n scalar \<times> string.
                  StrListV (str_split (CHR '';'') (snd (snd e))) :: 'n scalar"
  let ?row = "\<lambda>e :: string \<times> 'n scalar \<times> string. [StrV (fst e), fst (snd e), ?split e]"
  have mc: "map_cells (\<lambda>r. split_genes (nth_cell r (Suc (Suc 0)))) (map pathway_row entries) =
              Inr (map ?split entries)"
    by (induction entries) (auto simp: pathway_row_def split_genes_def nth_cell_def)
  have upd: "map (\<lambda>(r, v). r[Suc (Suc 0) := v]) (zip (map pathway_row entries) (map ?split entries)) =
               map ?row entries"
    by (simp add: zip_map_map zip_same_conv_map pathway_row_def split_def)
  let ?pd = "\<lparr>index = range_index (length entries), index_name = None,
              columns = [StrV ''pw'', StrV ''size'', StrV ''genes''],
              rows = map ?row entries\<rparr> :: 'n dataframe"
  have 1: "map_column (pathway_table entries) (StrV ''genes'') split_genes = Inr ?pd"
    using mc upd by (simp add: map_column_def pathway_table_def)
  let ?pd' = "\<lparr>index = map (\<lambda>e. StrV (fst e)) entries, index_name = Some (StrV ''pw''),
               columns = [StrV ''size'', StrV ''genes''],
               rows = map (\<lambda>e. [fst (snd e), ?split e]) entries\<rparr> :: 'n dataframe"
  have 2: "set_index ?pd (StrV ''pw'') = Inr ?pd'"
    by (simp add: set_index_def nth_cell_def drop_nth_def comp_def)
  have 3: "find_column (StrV ''genes'') (columns ?pd') = Some (Suc 0)"
    by simp
  have 4: "zip (index ?pd') (rows ?pd') = map indexed_row entries"
    by (simp add: zip_map_map zip_same_conv_map indexed_row_def split_def)
  from 1 2 3 4 show ?thesis by blast
qed

lemma pathway_loop_step:
  "pathway_loop sh (Some (Suc 0)) (indexed_row (pw, sz, genes) # rest) m =
     pathway_loop sh (Some (Suc 0)) rest
       (m(shortened sh pw \<mapsto> set (str_split (CHR '';'') genes)))"
  by (simp add: indexed_row_def shortened_def nth_cell_def)

lemma pathway_loop_other:
  assumes "list_all (\<lambda>e. shortened sh (fst e) \<noteq> k) post"
  shows "\<exists>m'. pathway_loop sh (Some (Suc 0)) (map indexed_row post) m = Inr m' \<and> m' k = m k"
  using assms
proof (induction post arbitrary: m)
  case Nil
  then show ?case by simp
next
  case (Cons e post)
  obtain pw sz genes where e: "e = (pw, sz, genes)" by (cases e) auto
  let ?m = "m(shortened sh pw \<mapsto> set (str_split (CHR '';'') genes))"
  from Cons.prems have ne: "shortened sh pw \<noteq> k"
    and rest: "list_all (\<lambda>e. shortened sh (fst e) \<noteq> k) post"
    by (simp_all add: e)
  from Cons.IH[OF rest, of ?m] obtain m' where
    m': "pathway_loop sh (Some (Suc 0)) (map indexed_row post) ?m = Inr m'" "m' k = ?m k"
    by blast
  from ne m'(2) have "m' k = m k" by simp
  with m'(1) show ?case by (simp add: e pathway_loop_step)
qed

lemma pathway_loop_last:
  assumes "list_all (\<lambda>e. shortened sh (fst e) \<noteq> shortened sh pw) post"
  shows "\<exists>m'. pathway_loop sh (Some (Suc 0))
                 (map indexed_row (pre @ (pw, sz, genes) # post)) m = Inr m' \<and>
           m' (shortened sh pw) = Some (set (str_split (CHR '';'') genes))"
proof (induction pre arbitrary: m)
  case Nil
  let ?m = "m(shortened sh pw \<mapsto> set (str_split (CHR '';'') genes))"
  from pathway_loop_other[OF assms, of ?m] obtain m' where
    m': "pathway_loop sh (Some (Suc 0)) (map indexed_row post) ?m = Inr m'"
    "m' (shortened sh pw) = ?m (shortened sh pw)"
    by blast
  from m'(2) have "m' (shortened sh pw) = Some (set (str_split (CHR '';'') genes))" by simp
  with m'(1) show ?case by (simp add: pathway_loop_step)
next
  case (Cons e pre)
  obtain pw' sz' genes' where e: "e = (pw', sz', genes')" by (cases e) auto
  let ?m = "m(shortened sh pw' \<mapsto> set (str_split (CHR '';'') genes'))"
  from Cons.IH[of ?m] obtain m' where
    "pathway_loop sh (Some (Suc 0)) (map indexed_row (pre @ (pw, sz, genes) # post)) ?m = Inr m'"
    "m' (shortened sh pw) = Some (set (str_split (CHR '';'') genes))"
    by blast
  then show ?case by (simp add: e pathway_loop_step)
qed

text \<open>
  C7. When two rows of a pathway definitions file have the same shortened pathway name
  and no later row has it, the dictionary \<^verbatim>\<open>load_pathway_definitions\<close> returns binds
  that name to the gene set of the later of the two rows: the later row replaces the
  earlier one, the two gene sets are not united.
\<close>

theorem load_pathway_definitions_last_row_wins:
  fixes entries :: "(string \<times> 'n scalar \<times> string) list"
  assumes "read_table path_to_file
             \<lparr>header = None, sep = TAB, index_col = None, nrows = None,
              names = Some [''pw'', ''size'', ''genes''], usecols = None\<rparr> =
           Inr (pathway_table entries)"
    and "entries = before @ (pw1, sz1, genes1) # between @ (pw2, sz2, genes2) # after"
    and "shortened shorten_pathway_names pw1 = shortened shorten_pathway_names pw2"
    and "list_all (\<lambda>e. shortened shorten_pathway_names (fst e) \<noteq>
                         shortened shorten_pathway_names pw2) after"
  shows "\<exists>m. load_pathway_definitions read_table path_to_file shorten_pathway_names = Inr m \<and>
           m (shortened shorten_pathway_names pw2) = Some (set (str_split (CHR '';'') genes2))"
proof -
  from pathway_frame[of entries] obtain pd pd' :: "'n dataframe" where
    pd: "map_column (pathway_table entries) (StrV ''genes'') split_genes = Inr pd"
    "set_index pd (StrV ''pw'') = Inr pd'"
    "find_column (StrV ''genes'') (columns pd') = Some (Suc 0)"
    "zip (index pd') (rows pd') = map indexed_row entries"
    by blast
  have e: "entries = (before @ (pw1, sz1, genes1) # between) @ (pw2, sz2, genes2) # after"
    using assms(2) by simp
  from pathway_loop_last[OF assms(4), of "before @ (pw1, sz1, genes1) # between" sz2 genes2 Map.empty]
  obtain m where "pathway_loop shorten_pathway_names (Some (Suc 0)) (map indexed_row entries) Map.empty = Inr m"
    and "m (shortened shorten_pathway_names pw2) = Some (set (str_split (CHR '';'') genes2))"
    unfolding e by blast
  with assms(1) pd show ?thesis
    by (simp add: load_pathway_definitions_def)
qed

lemma example_shortened_kegg: "shortened (Some (\<lambda>s. [last s])) ''KEGG_A'' = ''A''"
  by (simp add: shortened_def)

lemma example_shortened_reactome: "shortened (Some (\<lambda>s. [last s])) ''REACTOME_A'' = ''A''"
  by (simp add: shortened_def)

lemma example_gene_apart: "''g1'' \<notin> {''g4''}" by simp

lemma example_sets_differ: "{''g4''} \<noteq> {''g1'', ''g2'', ''g4''}"
proof
  assume a: "{''g4''} = {''g1'', ''g2'', ''g4''}"
  have "''g1'' \<in> {''g1'', ''g2'', ''g4''}" by (rule insertI1)
  with a have "''g1'' \<in> {''g4''}" by (simp only:)
  then show False by simp
qed

theorem load_pathway_definitions_last_row_wins_witness:
  "\<exists>m. load_pathway_definitions example_pathways ''p.tsv'' (Some (\<lambda>s. [last s])) = Inr m \<and>
        m ''A'' = Some {''g4''} \<and> m ''A'' \<noteq> Some {''g1'', ''g2'', ''g4''}"
proof -
  let ?entries = "[(''KEGG_A'', IntV 2, ''g1;g2''), (''PID_B'', IntV 1, ''g3''),
        (''REACTOME_A'', IntV 1, ''g4'')] :: (string \<times> nat scalar \<times> string) list"
  have h1: "example_pathways ''p.tsv''
             \<lparr>header = None, sep = TAB, index_col = None, nrows = None,
              names = Some [''pw'', ''size'', ''genes''], usecols = None\<rparr> =
           Inr (pathway_table ?entries)"
    by (simp only: example_pathways_def)
  have h2: "?entries = [] @ (''KEGG_A'', IntV 2, ''g1;g2'') # [(''PID_B'', IntV 1, ''g3'')] @
              (''REACTOME_A'', IntV 1, ''g4'') # []"
    by (simp only: append.simps)
  have h3: "shortened (Some (\<lambda>s. [last s])) ''KEGG_A'' =
            shortened (Some (\<lambda>s. [last s])) ''REACTOME_A''"
    by (simp only: example_shortened_kegg example_shortened_reactome)
  have h4: "list_all (\<lambda>e. shortened (Some (\<lambda>s. [last s])) (fst e) \<noteq>
                         shortened (Some (\<lambda>s. [last s])) ''REACTOME_A'') []"
    by simp
  from load_pathway_definitions_last_row_wins[where 'n = nat, of example_pathways "''p.tsv''"
      ?entries "[]" "''KEGG_A''" "IntV 2" "''g1;g2''" "[(''PID_B'', IntV 1, ''g3'')]"
      "''REACTOME_A''" "IntV 1" "''g4''" "[]" "Some (\<lambda>s. [last s])", OF h1 h2 h3 h4]
  obtain m where
    m: "load_pathway_definitions example_pathways ''p.tsv'' (Some (\<lambda>s. [last s])) = Inr m"
    and a: "m (shortened (Some (\<lambda>s. [last s])) ''REACTOME_A'') =
              Some (set (str_split (CHR '';'') ''g4''))"
    by blast
  have g: "set (str_split (CHR '';'') ''g4'') = {''g4''}" by simp
  from a have b: "m ''A'' = Some {''g4''}" by (simp only: example_shortened_reactome g)
  from b example_sets_differ have "m ''A'' \<noteq> Some {''g1'', ''g2'', ''g4''}" by (simp only: option.inject simp_thms)
  with m b show ?thesis by (intro exI conjI)
qed


section \<open>Properties of the significant pathways loader\<close>

lemma order_key_int:
  "is_int a \<Longrightarrow> is_int b \<Longrightarrow>
     (order_key a < order_key b \<longleftrightarrow> py_less a b) \<and>
     (order_key a \<le> order_key b \<longleftrightarrow> py_le a b) \<and>
     (order_key a = order_key b \<longleftrightarrow> a = b)"
  by (cases a; cases b) (auto simp: is_int_def order_key_def int_of_def str_of_def)

lemma order_key_str:
  "is_str a \<Longrightarrow> is_str b \<Longrightarrow>
     (order_key a < order_key b \<longleftrightarrow> py_less a b) \<and>
     (order_key a \<le> order_key b \<longleftrightarrow> py_le a b) \<and>
     (order_key a = order_key b \<longleftrightarrow> a = b)"
  by (cases a; cases b) (auto simp: is_str_def order_key_def int_of_def str_of_def)

lemma order_key_homogeneous:
  assumes "homogeneous vs" and "a \<in> set vs" and "b \<in> set vs"
  shows "(order_key a < order_key b \<longleftrightarrow> py_less a b) \<and>
         (order_key a \<le> order_key b \<longleftrightarrow> py_le a b) \<and>
         (order_key a = order_key b \<longleftrightarrow> a = b)"
  using assms order_key_int[of a b] order_key_str[of a b]
  by (auto simp: homogeneous_def list_all_iff)

lemma sort_values_result:
  assumes "sort_values mid a b = Inr df"
  shows "\<exists>i j. find_column a (columns mid) = Some i \<and> find_column b (columns mid) = Some j \<and>
           homogeneous (column_values mid i) \<and> homogeneous (column_values mid j) \<and>
           columns df = columns mid \<and>
           index df = map fst
             (sort_key (\<lambda>lr. (order_key (nth_cell (snd lr) i), order_key (nth_cell (snd lr) j)))
               (zip (index mid) (rows mid))) \<and>
           rows df = map snd
             (sort_key (\<lambda>lr. (order_key (nth_cell (snd lr) i), order_key (nth_cell (snd lr) j)))
               (zip (index mid) (rows mid)))"
  using assms
  by (auto simp: sort_values_def reorder_def split: option.splits if_splits)

lemma loader_sorts:
  assumes "load_significant_pathways_file read_table path_to_file shorten_pathway_names = Inr df"
  shows "\<exists>mid. sort_values mid (StrV ''feature'') (StrV ''side'') = Inr df"
  using assms
  by (auto simp: load_significant_pathways_file_def split: sum.splits)

lemma snd_zip_mem: "p \<in> set (zip xs ys) \<Longrightarrow> snd p \<in> set ys"
  by (cases p) (auto dest: set_zip_rightD)

lemma snd_sorted_mem:
  assumes "k < length (sort_key K (zip xs ys))"
  shows "snd (sort_key K (zip xs ys) ! k) \<in> set ys"
proof -
  from assms have "sort_key K (zip xs ys) ! k \<in> set (sort_key K (zip xs ys))" by (rule nth_mem)
  then have "sort_key K (zip xs ys) ! k \<in> set (zip xs ys)" by simp
  then show ?thesis by (rule snd_zip_mem)
qed

lemma lex_pair_le:
  fixes a c :: "int \<times> string" and b d :: "int \<times> string"
  assumes "(a, b) \<le> (c, d)"
  shows "a < c \<or> (a = c \<and> b \<le> d)"
proof -
  from assms have "a < c \<or> (a \<le> c \<and> b \<le> d)" by (simp add: less_eq_prod_def)
  then show ?thesis using le_less[of a c] by blast
qed


lemma find_column_Some: "find_column c xs = Some k \<Longrightarrow> k < length xs \<and> xs ! k = c"
  by (induction xs arbitrary: k) (auto split: if_splits)

lemma map_cells_length: "map_cells f xs = Inr ys \<Longrightarrow> length ys = length xs"
  by (induction xs arbitrary: ys) (auto split: sum.splits)

lemma nth_cell_update: "c \<noteq> p \<Longrightarrow> nth_cell (r[p := v]) c = nth_cell r c"
  by (simp add: nth_cell_def)

lemma map_column_keeps:
  assumes "map_column df label f = Inr mid"
  shows "\<exists>p. find_column label (columns df) = Some p \<and>
           index mid = index df \<and> columns mid = columns df \<and>
           length (rows mid) = length (rows df) \<and>
           (\<forall>k<length (rows df). \<forall>c. c \<noteq> p \<longrightarrow>
               nth_cell (rows mid ! k) c = nth_cell (rows df ! k) c)"
proof -
  from assms obtain p vs where p: "find_column label (columns df) = Some p"
    and vs: "map_cells (\<lambda>r. f (nth_cell r p)) (rows df) = Inr vs"
    and mid: "mid = df\<lparr>rows := map (\<lambda>(r, v). r[p := v]) (zip (rows df) vs)\<rparr>"
    by (auto simp: map_column_def split: option.splits sum.splits)
  from map_cells_length[OF vs] have len: "length vs = length (rows df)" .
  have "nth_cell (rows mid ! k) c = nth_cell (rows df ! k) c" if "k < length (rows df)" "c \<noteq> p" for k c
    using that len by (simp add: mid nth_cell_update)
  with p len show ?thesis by (simp add: mid)
qed

lemma filter_zip_agree:
  assumes "length ys = length zs"
    and "\<forall>k<length ys. Q (ys ! k) = R (zs ! k)"
  shows "map fst (filter (\<lambda>p. Q (snd p)) (zip xs ys)) =
         map fst (filter (\<lambda>p. R (snd p)) (zip xs zs))"
  using assms
proof (induction xs arbitrary: ys zs)
  case Nil
  then show ?case by simp
next
  case (Cons x xs)
  show ?case
  proof (cases ys)
    case Nil
    with Cons.prems show ?thesis by simp
  next
    case (Cons y ys')
    with Cons.prems(1) obtain z zs' where zs: "zs = z # zs'" by (cases zs) auto
    from Cons.prems Cons zs have 1: "length ys' = length zs'" by simp
    from Cons.prems(2) Cons zs have 2: "\<forall>k<length ys'. Q (ys' ! k) = R (zs' ! k)"
      by (metis Suc_less_eq length_Cons nth_Cons_Suc)
    from Cons.prems(2) Cons zs have 3: "Q y = R z"
      by (metis length_Cons nth_Cons_0 zero_less_Suc)
    from Cons.IH[OF 1 2] 3 show ?thesis by (simp add: Cons zs)
  qed
qed

lemma filter_sort_key_stable:
  assumes "\<And>x. P x \<Longrightarrow> K x = k"
  shows "filter P (sort_key K xs) = filter P xs"
proof -
  have "filter P ys = filter P (filter (\<lambda>y. K y = k) ys)" for ys
    using assms by (induction ys) auto
  then have "filter P (sort_key K xs) = filter P (filter (\<lambda>y. K y = k) (sort_key K xs))" .
  also have "\<dots> = filter P (filter (\<lambda>y. K y = k) xs)"
    by (simp only: sort_key_stable)
  also have "\<dots> = filter P xs"
    using assms by (induction xs) auto
  finally show ?thesis .
qed


lemma shortening_keeps:
  assumes "(case shorten_pathway_names of
              Some g \<Rightarrow> map_column raw (StrV ''pathway'') (apply_shorten g)
            | None \<Rightarrow> Inr raw) = Inr mid"
    and "find_column (StrV ''feature'') (columns mid) = Some f"
    and "find_column (StrV ''side'') (columns mid) = Some s"
  shows "index mid = index raw \<and> columns mid = columns raw \<and>
         length (rows mid) = length (rows raw) \<and>
         (\<forall>k<length (rows raw).
            nth_cell (rows mid ! k) f = nth_cell (rows raw ! k) f \<and>
            nth_cell (rows mid ! k) s = nth_cell (rows raw ! k) s)"
proof (cases shorten_pathway_names)
  case None
  with assms(1) show ?thesis by simp
next
  case (Some g)
  with assms(1) have "map_column raw (StrV ''pathway'') (apply_shorten g) = Inr mid" by simp
  from map_column_keeps[OF this] obtain p where
    p: "find_column (StrV ''pathway'') (columns raw) = Some p"
    and keep: "index mid = index raw" "columns mid = columns raw"
      "length (rows mid) = length (rows raw)"
    and cells: "\<forall>k<length (rows raw). \<forall>c. c \<noteq> p \<longrightarrow>
               nth_cell (rows mid ! k) c = nth_cell (rows raw ! k) c"
    by blast
  from find_column_Some[OF p] have cp: "columns raw ! p = StrV ''pathway''" by simp
  from find_column_Some[OF assms(2)] keep(2) have cf: "columns raw ! f = StrV ''feature''" by simp
  from find_column_Some[OF assms(3)] keep(2) have cs: "columns raw ! s = StrV ''side''" by simp
  from cp cf have "f \<noteq> p" by auto
  moreover from cp cs have "s \<noteq> p" by auto
  ultimately show ?thesis using keep cells by simp
qed

lemma example_significant_loaded:
  "load_significant_pathways_file example_significant ''s.tsv'' None = Inr example_significant_sorted"
  by code_simp

text \<open>
  C8. In the table \<^verbatim>\<open>load_significant_pathways_file\<close> returns, for every two rows \<open>i\<close>
  before \<open>j\<close>: the feature of row \<open>i\<close> is less than that of row \<open>j\<close>, or the features
  are equal and the side of row \<open>i\<close> is at most that of row \<open>j\<close>.
\<close>

theorem load_significant_pathways_file_sorted:
  assumes "load_significant_pathways_file read_table path_to_file shorten_pathway_names = Inr df"
    and "i < j" and "j < length (rows df)"
  shows "py_less (row_get (columns df) (rows df ! i) (StrV ''feature''))
                 (row_get (columns df) (rows df ! j) (StrV ''feature'')) \<or>
         (row_get (columns df) (rows df ! i) (StrV ''feature'') =
            row_get (columns df) (rows df ! j) (StrV ''feature'') \<and>
          py_le (row_get (columns df) (rows df ! i) (StrV ''side''))
                (row_get (columns df) (rows df ! j) (StrV ''side'')))"
proof -
  from loader_sorts[OF assms(1)] obtain mid where
    "sort_values mid (StrV ''feature'') (StrV ''side'') = Inr df" by blast
  from sort_values_result[OF this] obtain f s where
    f: "find_column (StrV ''feature'') (columns mid) = Some f"
    and s: "find_column (StrV ''side'') (columns mid) = Some s"
    and hf: "homogeneous (column_values mid f)" and hs: "homogeneous (column_values mid s)"
    and cols: "columns df = columns mid"
    and rows: "rows df = map snd
             (sort_key (\<lambda>lr. (order_key (nth_cell (snd lr) f), order_key (nth_cell (snd lr) s)))
               (zip (index mid) (rows mid)))"
    by blast
  define K where "K = (\<lambda>lr :: 'a scalar \<times> 'a scalar list.
              (order_key (nth_cell (snd lr) f), order_key (nth_cell (snd lr) s)))"
  define S where "S = sort_key K (zip (index mid) (rows mid))"
  have rows': "rows df = map snd S" using rows by (simp only: S_def K_def)
  from assms(2,3) rows' have ij: "i < length S" "j < length S" by simp_all
  have srt: "sorted (map K S)" unfolding S_def by (rule sorted_sort_key)
  have "map K S ! i \<le> map K S ! j"
    using srt assms(2) ij by (intro sorted_nth_mono) simp_all
  with ij have le: "K (S ! i) \<le> K (S ! j)" by simp
  have mem: "snd (S ! k) \<in> set (rows mid)" if "k < length S" for k
    using that unfolding S_def by (rule snd_sorted_mem)
  have ri: "rows df ! i = snd (S ! i)" and rj: "rows df ! j = snd (S ! j)"
    using ij rows' by simp_all
  define fi fj si sj where "fi = nth_cell (rows df ! i) f" and "fj = nth_cell (rows df ! j) f"
    and "si = nth_cell (rows df ! i) s" and "sj = nth_cell (rows df ! j) s"
  have inf: "fi \<in> set (column_values mid f)" "fj \<in> set (column_values mid f)"
    and ins: "si \<in> set (column_values mid s)" "sj \<in> set (column_values mid s)"
    using mem[OF ij(1)] mem[OF ij(2)]
    by (simp_all add: column_values_def fi_def fj_def si_def sj_def ri rj)
  note kf = order_key_homogeneous[OF hf inf]
  note ks = order_key_homogeneous[OF hs ins]
  from le have "(order_key fi, order_key si) \<le> (order_key fj, order_key sj)"
    by (simp only: K_def fi_def fj_def si_def sj_def ri rj)
  from lex_pair_le[OF this]
  have "order_key fi < order_key fj \<or> (order_key fi = order_key fj \<and> order_key si \<le> order_key sj)" .
  with kf ks have "py_less fi fj \<or> (fi = fj \<and> py_le si sj)"
    by blast
  then show ?thesis
    by (simp add: row_get_def cols f s fi_def fj_def si_def sj_def)
qed


theorem load_significant_pathways_file_sorted_witness:
  "load_significant_pathways_file example_significant ''s.tsv'' None =
     Inr example_significant_sorted \<and>
   (py_less (IntV 9) (IntV 10 :: nat scalar) \<or>
    (IntV 9 = (IntV 10 :: nat scalar) \<and> py_le (StrV ''pos'') (StrV ''neg'' :: nat scalar)))"
  using load_significant_pathways_file_sorted[OF example_significant_loaded, of 0 1]
    example_significant_loaded
  by (simp add: example_significant_sorted_def row_get_def nth_cell_def)

text \<open>
  C9. The sort is stable: for every feature and side, the rows of the returned table
  that have them carry the same row labels, in the same order, as the rows of the file
  that have them.
\<close>

theorem load_significant_pathways_file_stable:
  assumes "read_table path_to_file
             \<lparr>header = Some 0, sep = TAB, index_col = None, nrows = None, names = None,
              usecols = Some [''feature'', ''side'', ''pathway'']\<rparr> = Inr raw"
    and "load_significant_pathways_file read_table path_to_file shorten_pathway_names = Inr df"
  shows "map fst (filter (\<lambda>lr. row_get (columns df) (snd lr) (StrV ''feature'') = fv \<and>
                               row_get (columns df) (snd lr) (StrV ''side'') = sv)
                    (zip (index df) (rows df))) =
         map fst (filter (\<lambda>lr. row_get (columns raw) (snd lr) (StrV ''feature'') = fv \<and>
                               row_get (columns raw) (snd lr) (StrV ''side'') = sv)
                    (zip (index raw) (rows raw)))"
proof -
  from assms obtain mid where
    mid: "(case shorten_pathway_names of
              Some g \<Rightarrow> map_column raw (StrV ''pathway'') (apply_shorten g)
            | None \<Rightarrow> Inr raw) = Inr mid"
    and sv: "sort_values mid (StrV ''feature'') (StrV ''side'') = Inr df"
    by (auto simp: load_significant_pathways_file_def split: sum.splits)
  from sort_values_result[OF sv] obtain f s where
    f: "find_column (StrV ''feature'') (columns mid) = Some f"
    and s: "find_column (StrV ''side'') (columns mid) = Some s"
    and cols: "columns df = columns mid"
    and ix: "index df = map fst
             (sort_key (\<lambda>lr. (order_key (nth_cell (snd lr) f), order_key (nth_cell (snd lr) s)))
               (zip (index mid) (rows mid)))"
    and rows: "rows df = map snd
             (sort_key (\<lambda>lr. (order_key (nth_cell (snd lr) f), order_key (nth_cell (snd lr) s)))
               (zip (index mid) (rows mid)))"
    by blast
  define K where "K = (\<lambda>lr :: 'a scalar \<times> 'a scalar list.
              (order_key (nth_cell (snd lr) f), order_key (nth_cell (snd lr) s)))"
  define Q where "Q = (\<lambda>r :: 'a scalar list. nth_cell r f = fv \<and> nth_cell r s = sv)"
  from shortening_keeps[OF mid f s] have
    keep: "index mid = index raw" "columns mid = columns raw"
      "length (rows mid) = length (rows raw)"
    and cells: "\<forall>k<length (rows mid). Q (rows mid ! k) = Q (rows raw ! k)"
    by (simp_all add: Q_def)
  have zdf: "zip (index df) (rows df) = sort_key K (zip (index mid) (rows mid))"
    by (simp only: ix rows K_def zip_map_fst_snd)
  have gdf: "row_get (columns df) r (StrV ''feature'') = fv \<and>
             row_get (columns df) r (StrV ''side'') = sv \<longleftrightarrow> Q r" for r
    by (simp add: row_get_def cols f s Q_def)
  have graw: "row_get (columns raw) r (StrV ''feature'') = fv \<and>
             row_get (columns raw) r (StrV ''side'') = sv \<longleftrightarrow> Q r" for r
    using f s by (simp add: row_get_def keep(2)[symmetric] Q_def)
  have "filter (\<lambda>lr. Q (snd lr)) (sort_key K (zip (index mid) (rows mid))) =
        filter (\<lambda>lr. Q (snd lr)) (zip (index mid) (rows mid))"
    by (rule filter_sort_key_stable[where k = "(order_key fv, order_key sv)"])
      (simp add: K_def Q_def)
  then have "map fst (filter (\<lambda>lr. Q (snd lr)) (zip (index df) (rows df))) =
             map fst (filter (\<lambda>lr. Q (snd lr)) (zip (index mid) (rows mid)))"
    by (simp only: zdf)
  also have "\<dots> = map fst (filter (\<lambda>lr. Q (snd lr)) (zip (index raw) (rows raw)))"
    unfolding keep(1) by (rule filter_zip_agree[OF keep(3) cells])
  finally show ?thesis by (simp only: gdf graw)
qed

theorem load_significant_pathways_file_stable_witness:
  "load_significant_pathways_file example_significant ''s.tsv'' None =
     Inr example_significant_sorted \<and>
   map fst (filter (\<lambda>lr. row_get (columns example_significant_sorted) (snd lr) (StrV ''feature'') = IntV 10 \<and>
                         row_get (columns example_significant_sorted) (snd lr) (StrV ''side'') = StrV ''pos'')
              (zip (index example_significant_sorted) (rows example_significant_sorted))) =
     [IntV 0, IntV 3]"
proof -
  have raw: "example_significant ''s.tsv''
             \<lparr>header = Some 0, sep = TAB, index_col = None, nrows = None, names = None,
              usecols = Some [''feature'', ''side'', ''pathway'']\<rparr> = Inr example_significant_table"
    by (simp only: example_significant_def)
  have "map fst (filter (\<lambda>lr. row_get (columns example_significant_table) (snd lr) (StrV ''feature'') = IntV 10 \<and>
                         row_get (columns example_significant_table) (snd lr) (StrV ''side'') = StrV ''pos'')
              (zip (index example_significant_table) (rows example_significant_table))) =
     [IntV 0, IntV 3 :: nat scalar]"
    by (simp add: example_significant_table_def row_get_def nth_cell_def)
  with load_significant_pathways_file_stable[of example_significant "''s.tsv''"
      example_significant_table None example_significant_sorted "IntV 10" "StrV ''pos''",
      OF raw example_significant_loaded]
    example_significant_loaded
  show ?thesis by (simp only: simp_thms)
qed

end
